theory Spec2Isabelle
  imports Main "HOL-Library.Multiset"
begin

section \<open>Data model of the UX Architect agent\<close>

text \<open>
  The agent (class \<open>UXArchitectAgent\<close>) keeps an \<open>AgentState\<close> in memory and two SQL
  tables, \<open>agent_messages\<close> and \<open>agent_threads\<close>. Everything it obtains from outside
  (\<open>crypto.randomUUID\<close>, \<open>Date.now\<close>, the OpenAI client, the MCP registry, the JSON
  built-ins, the D1 database of the route) is a field of the record \<open>env\<close>; the external
  calls are indexed by a counter \<open>tick\<close> that every such call advances, so that two calls
  may answer differently.
\<close>

datatype role = User | Assistant | System | Tool

datatype json = JNull | JBool bool | JNum int | JStr string
  | JArr "json list" | JObj "(string \<times> json) list"

text \<open>A thrown value: an \<open>Error\<close> object with its message, or anything else.\<close>

datatype thrown = Error string | NonError

text \<open>\<open>ChatCompletionMessageToolCall\<close>: \<open>{id, type: "function", function: {name, arguments}}\<close>.\<close>

record tool_call =
  call_id :: string
  fn_name :: string
  fn_arguments :: string

record message =
  msg_id :: string
  msg_role :: role
  content :: string
  toolCalls :: "tool_call list option"
  toolCallId :: "string option"
  createdAt :: int

record agent_state =
  threadId :: "string option"
  systemPrompt :: string
  conversationHistory :: "message list"

text \<open>
  A row of \<open>agent_messages\<close>. The column \<open>tool_calls\<close> holds the text
  \<open>JSON.stringify(toolCalls)\<close>, which \<open>loadThread\<close> reads back with \<open>JSON.parse\<close>; the row
  keeps the list that text denotes (the text of an array is never the empty string, so the
  test \<open>msg.tool_calls ? ... : undefined\<close> is a test for \<open>NULL\<close>).
\<close>

record msg_row =
  row_id :: string
  thread_id :: string
  row_role :: role
  row_content :: string
  tool_calls :: "tool_call list option"
  tool_call_id :: "string option"
  created_at :: int

record thread_row =
  thr_id :: string
  title :: "string option"
  thr_created_at :: int
  updated_at :: int

text \<open>One entry of the \<open>messages\<close> array of a completion request.\<close>

datatype param =
    ToolParam string string
  | AssistantCallsParam string "tool_call list"
  | PlainParam role string

record chat_tool =
  ct_name :: string
  ct_description :: string
  ct_parameters :: json

record llm_request =
  model :: string
  messages :: "param list"
  tools :: "chat_tool list option"
  tool_choice :: "string option"

text \<open>\<open>completion.choices[i].message\<close>.\<close>

record completion_message =
  cm_content :: "string option"
  cm_tool_calls :: "tool_call list option"

record mcp_tool =
  tool_name :: string
  tool_description :: "string option"
  inputSchema :: json

record mcp_server =
  server_state :: "string option"
  server_tools :: "mcp_tool list option"
  client :: "(string \<Rightarrow> json \<Rightarrow> thrown + json) option"

record env =
  randomUUID :: "nat \<Rightarrow> string"
  date_now :: "nat \<Rightarrow> int"
  json_stringify :: "json \<Rightarrow> string"
  json_parse :: "string \<Rightarrow> string + json"
  completions_create :: "nat \<Rightarrow> llm_request \<Rightarrow> thrown + completion_message list"
  addMcpServer :: "nat \<Rightarrow> thrown + string option"
  getMcpServers :: "nat \<Rightarrow> mcp_server option list option"
  d1_run :: "nat \<Rightarrow> thrown option"

text \<open>
  The agent instance: its state, its private flag, its two tables (rows in insertion
  order), the counter of external calls, and two logs that the code does not have: every
  completion request with its outcome, and every tool invocation with its outcome.
\<close>

record world =
  state :: agent_state
  mcpConnected :: bool
  agent_messages :: "msg_row list"
  agent_threads :: "thread_row list"
  tick :: nat
  llm_log :: "(llm_request \<times> (thrown + completion_message list)) list"
  tool_log :: "(tool_call \<times> (thrown + json)) list"

record chat_result =
  response :: string
  result_threadId :: "string option"

section \<open>Operations\<close>

text \<open>JavaScript truthiness of an optional string, and \<open>s || ""\<close>, \<open>s || null\<close>.\<close>

definition truthy :: "string option \<Rightarrow> bool" where
  "truthy s = (case s of None \<Rightarrow> False | Some t \<Rightarrow> t \<noteq> [])"

definition or_empty :: "string option \<Rightarrow> string" where
  "or_empty s = (case s of None \<Rightarrow> [] | Some t \<Rightarrow> t)"

definition or_null :: "string option \<Rightarrow> string option" where
  "or_null s = (if truthy s then s else None)"

definition next_uuid :: "env \<Rightarrow> world \<Rightarrow> string \<times> world" where
  "next_uuid e w = (randomUUID e (tick w), w\<lparr>tick := Suc (tick w)\<rparr>)"

definition next_now :: "env \<Rightarrow> world \<Rightarrow> int \<times> world" where
  "next_now e w = (date_now e (tick w), w\<lparr>tick := Suc (tick w)\<rparr>)"

definition setState :: "agent_state \<Rightarrow> world \<Rightarrow> world" where
  "setState s w = w\<lparr>state := s\<rparr>"

text \<open>\<open>connectToStitch\<close>: every failure of \<open>addMcpServer\<close> is caught.\<close>

definition connectToStitch :: "env \<Rightarrow> world \<Rightarrow> (bool \<times> string option) \<times> world" where
  "connectToStitch e w =
     (if mcpConnected w then ((True, None), w)
      else
        let w1 = w\<lparr>tick := Suc (tick w)\<rparr> in
        case addMcpServer e (tick w) of
          Inr authUrl \<Rightarrow>
            if \<not> truthy authUrl then ((True, None), w1\<lparr>mcpConnected := True\<rparr>)
            else ((False, Some (''Authentication required: '' @ or_empty authUrl)), w1)
        | Inl (Error m) \<Rightarrow> ((False, Some m), w1)
        | Inl NonError \<Rightarrow> ((False, Some ''Unknown error''), w1))"

definition server_ready_tools :: "mcp_server option \<Rightarrow> mcp_tool list option" where
  "server_ready_tools s =
     (case s of
        None \<Rightarrow> None
      | Some srv \<Rightarrow> if server_state srv = Some ''ready'' then server_tools srv else None)"

definition to_chat_tool :: "mcp_tool \<Rightarrow> chat_tool" where
  "to_chat_tool t =
     \<lparr>ct_name = tool_name t, ct_description = or_empty (tool_description t),
      ct_parameters = inputSchema t\<rparr>"

definition getMcpTools :: "env \<Rightarrow> world \<Rightarrow> chat_tool list \<times> world" where
  "getMcpTools e w =
     (let w1 = w\<lparr>tick := Suc (tick w)\<rparr> in
      case getMcpServers e (tick w) of
        None \<Rightarrow> ([], w1)
      | Some ss \<Rightarrow>
          (concat (map (\<lambda>s. case server_ready_tools s of
                               None \<Rightarrow> [] | Some ts \<Rightarrow> map to_chat_tool ts) ss), w1))"

text \<open>The \<open>INSERT\<close> into \<open>agent_threads\<close>; \<open>id\<close> is the primary key.\<close>

definition insert_thread :: "thread_row \<Rightarrow> world \<Rightarrow> (thrown + unit) \<times> world" where
  "insert_thread r w =
     (if thr_id r \<in> set (map thr_id (agent_threads w))
      then (Inl (Error ''UNIQUE constraint failed: agent_threads.id''), w)
      else (Inr (), w\<lparr>agent_threads := agent_threads w @ [r]\<rparr>))"

definition createThread :: "env \<Rightarrow> string option \<Rightarrow> world \<Rightarrow> (thrown + string) \<times> world" where
  "createThread e ttl w =
     (let (tid, w1) = next_uuid e w;
          (now, w2) = next_now e w1
      in case insert_thread
             \<lparr>thr_id = tid, title = or_null ttl, thr_created_at = now, updated_at = now\<rparr> w2 of
           (Inl err, w3) \<Rightarrow> (Inl err, w3)
         | (Inr u, w3) \<Rightarrow>
             (Inr tid,
              setState ((state w3)\<lparr>threadId := Some tid, conversationHistory := []\<rparr>) w3))"

definition message_of_row :: "msg_row \<Rightarrow> message" where
  "message_of_row r =
     \<lparr>msg_id = row_id r, msg_role = row_role r, content = row_content r,
      toolCalls = tool_calls r, toolCallId = or_null (tool_call_id r),
      createdAt = created_at r\<rparr>"

text \<open>
  \<open>loadThread\<close>. The \<open>SELECT\<close> reads the rows of the thread in table order, which is the
  order of insertion (no row is ever deleted or rewritten), and \<open>ORDER BY created_at ASC\<close>
  sorts them by that one key; the engine's sorter keeps rows of equal \<open>created_at\<close> in the
  order in which it read them. This is \<open>sort_key\<close>, a stable sort.
\<close>

definition loadThread :: "env \<Rightarrow> string \<Rightarrow> world \<Rightarrow> bool \<times> world" where
  "loadThread e tid w =
     (if filter (\<lambda>t. thr_id t = tid) (agent_threads w) = [] then (False, w)
      else
        let rows = sort_key created_at (filter (\<lambda>r. thread_id r = tid) (agent_messages w))
        in (True,
            setState ((state w)\<lparr>threadId := Some tid,
                                conversationHistory := map message_of_row rows\<rparr>) w))"

text \<open>The row that \<open>persistMessage\<close> writes for a message of thread \<open>t\<close>.\<close>

definition row_of :: "string \<Rightarrow> message \<Rightarrow> msg_row" where
  "row_of t m =
     \<lparr>row_id = msg_id m, thread_id = t, row_role = msg_role m, row_content = content m,
      tool_calls = toolCalls m, tool_call_id = or_null (toolCallId m),
      created_at = createdAt m\<rparr>"

definition insert_message :: "msg_row \<Rightarrow> world \<Rightarrow> (thrown + unit) \<times> world" where
  "insert_message r w =
     (if row_id r \<in> set (map row_id (agent_messages w))
      then (Inl (Error ''UNIQUE constraint failed: agent_messages.id''), w)
      else (Inr (), w\<lparr>agent_messages := agent_messages w @ [r]\<rparr>))"

definition persistMessage :: "env \<Rightarrow> message \<Rightarrow> world \<Rightarrow> (thrown + unit) \<times> world" where
  "persistMessage e m w =
     (case threadId (state w) of
        None \<Rightarrow> (Inl (Error ''NOT NULL constraint failed: agent_messages.thread_id''), w)
      | Some t \<Rightarrow>
          (case insert_message (row_of t m) w of
             (Inl err, w1) \<Rightarrow> (Inl err, w1)
           | (Inr u, w1) \<Rightarrow>
               let (now, w2) = next_now e w1
               in (Inr (),
                   w2\<lparr>agent_threads :=
                        map (\<lambda>r. if thr_id r = t then r\<lparr>updated_at := now\<rparr> else r)
                          (agent_threads w2)\<rparr>)))"

text \<open>
  The block that \<open>chat\<close> repeats five times: mint an id, build the message (the fields in
  the order the object literal evaluates them: \<open>id\<close> before \<open>createdAt\<close>), append it to
  \<open>conversationHistory\<close> with \<open>setState\<close>, then \<open>persistMessage\<close>. The state is updated
  before the row is written, so a failing write leaves the message in the history. The
  result is the history that was set.
\<close>

definition append_message ::
  "env \<Rightarrow> role \<Rightarrow> string \<Rightarrow> tool_call list option \<Rightarrow> string option \<Rightarrow> world
     \<Rightarrow> (thrown + message list) \<times> world" where
  "append_message e r c tcs tcid w =
     (let (uid, w1) = next_uuid e w;
          (now, w2) = next_now e w1;
          m = \<lparr>msg_id = uid, msg_role = r, content = c, toolCalls = tcs, toolCallId = tcid,
               createdAt = now\<rparr>;
          h = conversationHistory (state w2) @ [m];
          w3 = setState ((state w2)\<lparr>conversationHistory := h\<rparr>) w2
      in case persistMessage e m w3 of
           (Inl err, w4) \<Rightarrow> (Inl err, w4)
         | (Inr u, w4) \<Rightarrow> (Inr h, w4))"

text \<open>
  The projection of one history entry, written twice in \<open>chat\<close>: three cases in the
  order of the source, the last one for everything else. An array is truthy, so
  \<open>msg.toolCalls\<close> tests that the member is there.
\<close>

definition project :: "message \<Rightarrow> param" where
  "project m =
     (if msg_role m = Tool \<and> truthy (toolCallId m)
      then ToolParam (content m) (or_empty (toolCallId m))
      else if msg_role m = Assistant \<and> toolCalls m \<noteq> None
      then AssistantCallsParam (content m) (case toolCalls m of Some tcs \<Rightarrow> tcs | None \<Rightarrow> [])
      else PlainParam (msg_role m) (content m))"

definition build_messages :: "string \<Rightarrow> message list \<Rightarrow> param list" where
  "build_messages prompt h = PlainParam System prompt # map project h"

definition create_completion ::
  "env \<Rightarrow> llm_request \<Rightarrow> world \<Rightarrow> (thrown + completion_message list) \<times> world" where
  "create_completion e req w =
     (let out = completions_create e (tick w) req
      in (out, w\<lparr>tick := Suc (tick w), llm_log := llm_log w @ [(req, out)]\<rparr>))"

text \<open>\<open>executeMcpTool\<close>: the first ready server that lists the tool and has a client.\<close>

fun call_first :: "mcp_server option list \<Rightarrow> string \<Rightarrow> json \<Rightarrow> thrown + json" where
  "call_first [] nm args = Inl (Error (''Tool not found: '' @ nm))"
| "call_first (s # ss) nm args =
     (case server_ready_tools s of
        None \<Rightarrow> call_first ss nm args
      | Some ts \<Rightarrow>
          (case (find (\<lambda>t. tool_name t = nm) ts, Option.bind s client) of
             (Some t, Some c) \<Rightarrow> c nm args
           | _ \<Rightarrow> call_first ss nm args))"

definition executeMcpTool :: "env \<Rightarrow> string \<Rightarrow> json \<Rightarrow> world \<Rightarrow> (thrown + json) \<times> world" where
  "executeMcpTool e nm args w =
     (let w1 = w\<lparr>tick := Suc (tick w)\<rparr> in
      case getMcpServers e (tick w) of
        None \<Rightarrow> (Inl (Error (''Tool not found: '' @ nm)), w1)
      | Some ss \<Rightarrow> (call_first ss nm args, w1))"

text \<open>
  The invocation inside the \<open>try\<close>: \<open>JSON.parse\<close> of the arguments (a \<open>SyntaxError\<close> when
  they are not JSON), then \<open>executeMcpTool\<close>. Its outcome goes to \<open>tool_log\<close>.
\<close>

definition invoke_tool :: "env \<Rightarrow> tool_call \<Rightarrow> world \<Rightarrow> (thrown + json) \<times> world" where
  "invoke_tool e tc w =
     (let (out, w1) =
            (case json_parse e (fn_arguments tc) of
               Inl msg \<Rightarrow> (Inl (Error msg), w)
             | Inr args \<Rightarrow> executeMcpTool e (fn_name tc) args w)
      in (out, w1\<lparr>tool_log := tool_log w1 @ [(tc, out)]\<rparr>))"

definition try_tool_call :: "env \<Rightarrow> tool_call \<Rightarrow> world \<Rightarrow> (thrown + unit) \<times> world" where
  "try_tool_call e tc w =
     (case invoke_tool e tc w of
        (Inl err, w1) \<Rightarrow> (Inl err, w1)
      | (Inr toolResult, w1) \<Rightarrow>
          (case append_message e Tool (json_stringify e toolResult) None (Some (call_id tc)) w1 of
             (Inl err, w2) \<Rightarrow> (Inl err, w2)
           | (Inr h, w2) \<Rightarrow> (Inr (), w2)))"

definition error_text :: "thrown \<Rightarrow> string" where
  "error_text err = (case err of Error m \<Rightarrow> m | NonError \<Rightarrow> ''Tool execution failed'')"

definition error_payload :: "env \<Rightarrow> thrown \<Rightarrow> string" where
  "error_payload e err = json_stringify e (JObj [(''error'', JStr (error_text err))])"

text \<open>One iteration of the loop over \<open>tool_calls\<close>: the \<open>try\<close> and its \<open>catch\<close>.\<close>

definition tool_call_step :: "env \<Rightarrow> tool_call \<Rightarrow> world \<Rightarrow> (thrown + unit) \<times> world" where
  "tool_call_step e tc w =
     (case try_tool_call e tc w of
        (Inr u, w1) \<Rightarrow> (Inr (), w1)
      | (Inl err, w1) \<Rightarrow>
          (case append_message e Tool (error_payload e err) None (Some (call_id tc)) w1 of
             (Inl err2, w2) \<Rightarrow> (Inl err2, w2)
           | (Inr h, w2) \<Rightarrow> (Inr (), w2)))"

fun run_tool_calls :: "env \<Rightarrow> tool_call list \<Rightarrow> world \<Rightarrow> (thrown + unit) \<times> world" where
  "run_tool_calls e [] w = (Inr (), w)"
| "run_tool_calls e (tc # tcs) w =
     (case tool_call_step e tc w of
        (Inl err, w1) \<Rightarrow> (Inl err, w1)
      | (Inr u, w1) \<Rightarrow> run_tool_calls e tcs w1)"

text \<open>\<open>completion.choices[0].message\<close>; reading it off an empty \<open>choices\<close> is a \<open>TypeError\<close>.\<close>

definition first_choice :: "completion_message list \<Rightarrow> thrown + completion_message" where
  "first_choice cs =
     (case cs of
        [] \<Rightarrow> Inl (Error ''Cannot read properties of undefined (reading 'message')'')
      | c # rest \<Rightarrow> Inr c)"

definition complete :: "env \<Rightarrow> llm_request \<Rightarrow> world \<Rightarrow> (thrown + completion_message) \<times> world" where
  "complete e req w =
     (case create_completion e req w of
        (Inl err, w1) \<Rightarrow> (Inl err, w1)
      | (Inr cs, w1) \<Rightarrow> (first_choice cs, w1))"

text \<open>The branch \<open>if (assistantMessage.tool_calls && assistantMessage.tool_calls.length > 0)\<close>.\<close>

definition tool_branch ::
  "env \<Rightarrow> string \<Rightarrow> tool_call list \<Rightarrow> world \<Rightarrow> (thrown + string) \<times> world" where
  "tool_branch e responseContent tcs w =
     (case append_message e Assistant responseContent (Some tcs) None w of
        (Inl err, w1) \<Rightarrow> (Inl err, w1)
      | (Inr h, w1) \<Rightarrow>
          (case run_tool_calls e tcs w1 of
             (Inl err, w2) \<Rightarrow> (Inl err, w2)
           | (Inr u, w2) \<Rightarrow>
               (let followUpMessages =
                      build_messages (systemPrompt (state w2)) (conversationHistory (state w2))
                in (case complete e
                           \<lparr>model = ''gpt-4-turbo-preview'', messages = followUpMessages,
                            tools = None, tool_choice = None\<rparr> w2 of
                      (Inl err, w3) \<Rightarrow> (Inl err, w3)
                    | (Inr followUp, w3) \<Rightarrow> (Inr (or_empty (cm_content followUp)), w3)))))"

definition store_final :: "env \<Rightarrow> string \<Rightarrow> world \<Rightarrow> (thrown + chat_result) \<times> world" where
  "store_final e responseContent w =
     (case append_message e Assistant responseContent None None w of
        (Inl err, w1) \<Rightarrow> (Inl err, w1)
      | (Inr finalHistory, w1) \<Rightarrow>
          (Inr \<lparr>response = responseContent, result_threadId = threadId (state w1)\<rparr>, w1))"

definition ensure_thread :: "env \<Rightarrow> world \<Rightarrow> (thrown + unit) \<times> world" where
  "ensure_thread e w =
     (if \<not> truthy (threadId (state w))
      then (case createThread e None w of
              (Inl err, w1) \<Rightarrow> (Inl err, w1)
            | (Inr tid, w1) \<Rightarrow> (Inr (), w1))
      else (Inr (), w))"

definition after_first ::
  "env \<Rightarrow> completion_message \<Rightarrow> world \<Rightarrow> (thrown + chat_result) \<times> world" where
  "after_first e assistantMessage w =
     (let responseContent = or_empty (cm_content assistantMessage) in
      case cm_tool_calls assistantMessage of
        Some (tc # tcs) \<Rightarrow>
          (case tool_branch e responseContent (tc # tcs) w of
             (Inl err, w1) \<Rightarrow> (Inl err, w1)
           | (Inr final, w1) \<Rightarrow> store_final e final w1)
      | _ \<Rightarrow> store_final e responseContent w)"

definition chat :: "env \<Rightarrow> string \<Rightarrow> world \<Rightarrow> (thrown + chat_result) \<times> world" where
  "chat e userMessage w =
     (case ensure_thread e w of
        (Inl err, w1) \<Rightarrow> (Inl err, w1)
      | (Inr u, w1) \<Rightarrow>
          (let w2 = snd (connectToStitch e w1) in
           (case append_message e User userMessage None None w2 of
              (Inl err, w3) \<Rightarrow> (Inl err, w3)
            | (Inr updatedHistory, w3) \<Rightarrow>
                (let msgs = build_messages (systemPrompt (state w3)) updatedHistory;
                     (tls, w4) = getMcpTools e w3
                 in (case complete e
                            \<lparr>model = ''gpt-4-turbo-preview'', messages = msgs,
                             tools = (if tls \<noteq> [] then Some tls else None),
                             tool_choice = (if tls \<noteq> [] then Some ''auto'' else None)\<rparr> w4 of
                       (Inl err, w5) \<Rightarrow> (Inl err, w5)
                     | (Inr assistantMessage, w5) \<Rightarrow> after_first e assistantMessage w5)))))"

section \<open>The route \<open>POST /api/chat\<close> and the agent's handler behind it\<close>

text \<open>
  What \<open>await c.req.json()\<close> makes of the body of the request: the text is not JSON (the
  call rejects), it is \<open>null\<close>, or it is another value, of which the route reads the
  members \<open>message\<close> and \<open>threadId\<close>; a member that is missing is \<open>None\<close> (a number, a
  string, a boolean or an array has neither). The members are strings, as the route
  declares them.
\<close>

record chat_body =
  body_message :: "string option"
  body_threadId :: "string option"

datatype request_body = NotJson | JsonNull | JsonValue chat_body

text \<open>The agent's \<open>onRequest\<close> for \<open>POST /chat\<close>: it loads the thread when one is named.\<close>

definition onRequest_chat ::
  "env \<Rightarrow> string \<Rightarrow> string option \<Rightarrow> world \<Rightarrow> (thrown + chat_result) \<times> world" where
  "onRequest_chat e message tid w =
     (let w1 = (if truthy tid then snd (loadThread e (or_empty tid) w) else w)
      in chat e message w1)"

datatype api_response = Ok200 chat_result | ErrorResponse nat string

text \<open>
  The three D1 statements that copy the turn into the global tables; \<open>d1_run\<close> tells
  which of them throws.
\<close>

definition d1_mirror :: "env \<Rightarrow> world \<Rightarrow> (thrown + unit) \<times> world" where
  "d1_mirror e w =
     (case d1_run e (tick w) of
        Some err \<Rightarrow> (Inl err, w\<lparr>tick := tick w + 1\<rparr>)
      | None \<Rightarrow>
          (case d1_run e (tick w + 1) of
             Some err \<Rightarrow> (Inl err, w\<lparr>tick := tick w + 2\<rparr>)
           | None \<Rightarrow>
               (case d1_run e (tick w + 2) of
                  Some err \<Rightarrow> (Inl err, w\<lparr>tick := tick w + 3\<rparr>)
                | None \<Rightarrow> (Inr (), w\<lparr>tick := tick w + 3\<rparr>))))"

text \<open>
  The route of \<open>index.ts\<close>. The world \<open>w\<close> is the one of the agent instance that
  \<open>idFromName(body.threadId || crypto.randomUUID())\<close> names. Everything is inside the
  \<open>try\<close>: a body that is not JSON, the \<open>TypeError\<close> of reading \<open>message\<close> off \<open>null\<close>, a
  throw inside the agent's \<open>fetch\<close> and a throw of a D1 statement all end in the \<open>catch\<close>.
\<close>

definition api_chat :: "env \<Rightarrow> request_body \<Rightarrow> world \<Rightarrow> api_response \<times> world" where
  "api_chat e req w =
     (case req of
        NotJson \<Rightarrow> (ErrorResponse 500 ''Failed to process chat message'', w)
      | JsonNull \<Rightarrow> (ErrorResponse 500 ''Failed to process chat message'', w)
      | JsonValue body \<Rightarrow>
          if \<not> truthy (body_message body) then (ErrorResponse 400 ''Message is required'', w)
          else
            (case onRequest_chat e (or_empty (body_message body)) (body_threadId body) w of
               (Inl err, w1) \<Rightarrow> (ErrorResponse 500 ''Failed to process chat message'', w1)
             | (Inr result, w1) \<Rightarrow>
                 (case d1_mirror e w1 of
                    (Inl err, w2) \<Rightarrow> (ErrorResponse 500 ''Failed to process chat message'', w2)
                  | (Inr u, w2) \<Rightarrow> (Ok200 result, w2))))"

section \<open>Vocabulary of the properties\<close>

text \<open>
  The message that the block \<open>append_message\<close> builds when the counter of external calls
  stands at \<open>k\<close>: its id is the draw at \<open>k\<close>, its time the reading after it.
\<close>

definition mk_message ::
  "env \<Rightarrow> nat \<Rightarrow> role \<Rightarrow> string \<Rightarrow> tool_call list option \<Rightarrow> string option \<Rightarrow> message" where
  "mk_message e k r c tcs tcid =
     \<lparr>msg_id = randomUUID e k, msg_role = r, content = c, toolCalls = tcs, toolCallId = tcid,
      createdAt = date_now e (Suc k)\<rparr>"

text \<open>A step that leaves state and tables alone (the counter may advance).\<close>

definition frame :: "world \<Rightarrow> world \<Rightarrow> bool" where
  "frame w w' =
     (state w' = state w \<and> agent_messages w' = agent_messages w \<and>
      agent_threads w' = agent_threads w \<and> tick w \<le> tick w')"

text \<open>A step that appends \<open>m\<close> to the history and its row to the store of thread \<open>t\<close>.\<close>

definition step_append :: "string \<Rightarrow> message \<Rightarrow> world \<Rightarrow> world \<Rightarrow> bool" where
  "step_append t m w w' =
     (threadId (state w) = Some t \<and>
      state w' = (state w)\<lparr>conversationHistory := conversationHistory (state w) @ [m]\<rparr> \<and>
      agent_messages w' = agent_messages w @ [row_of t m] \<and>
      map thr_id (agent_threads w') = map thr_id (agent_threads w) \<and>
      tick w' = tick w + 3 \<and> llm_log w' = llm_log w \<and> tool_log w' = tool_log w)"

text \<open>The persisted log of a thread: its rows in insertion order.\<close>

definition messagesFor :: "string \<Rightarrow> world \<Rightarrow> msg_row list" where
  "messagesFor t w = filter (\<lambda>r. thread_id r = t) (agent_messages w)"

text \<open>Every id in the two tables is an earlier draw of \<open>randomUUID\<close>.\<close>

definition ids_minted :: "env \<Rightarrow> world \<Rightarrow> bool" where
  "ids_minted e w =
     ((\<forall>r\<in>set (agent_messages w). \<exists>k<tick w. row_id r = randomUUID e k) \<and>
      (\<forall>r\<in>set (agent_threads w). \<exists>k<tick w. thr_id r = randomUUID e k))"

text \<open>Every message row belongs to a thread that has a row.\<close>

definition owned :: "world \<Rightarrow> bool" where
  "owned w = (\<forall>r\<in>set (agent_messages w). thread_id r \<in> thr_id ` set (agent_threads w))"

definition store_ok :: "env \<Rightarrow> world \<Rightarrow> bool" where
  "store_ok e w = (ids_minted e w \<and> owned w)"

definition active_known :: "world \<Rightarrow> bool" where
  "active_known w =
     (case threadId (state w) of
        None \<Rightarrow> True
      | Some t \<Rightarrow> t \<in> thr_id ` set (agent_threads w))"

text \<open>
  The history and the persisted log of the active thread agree: the rows are the rows of
  the history's messages, in the same order.
\<close>

definition in_sync :: "world \<Rightarrow> bool" where
  "in_sync w =
     (case threadId (state w) of
        None \<Rightarrow> True
      | Some t \<Rightarrow> messagesFor t w = map (row_of t) (conversationHistory (state w)))"

text \<open>
  The store is well formed: its ids were drawn from \<open>randomUUID\<close> earlier, every message
  row belongs to a thread row, and the active thread has a row.
\<close>

definition wf_world :: "env \<Rightarrow> world \<Rightarrow> bool" where
  "wf_world e w = (ids_minted e w \<and> owned w \<and> active_known w)"

text \<open>A step keeps the store well formed, and the history in sync if it was.\<close>

definition keeps :: "env \<Rightarrow> world \<Rightarrow> world \<Rightarrow> bool" where
  "keeps e w w' = (wf_world e w' \<and> (in_sync w \<longrightarrow> in_sync w'))"

text \<open>
  The content of the \<open>tool\<close> message for an invocation that ended in \<open>out\<close>, and the shape
  of that message.
\<close>

definition tool_content :: "env \<Rightarrow> thrown + json \<Rightarrow> string" where
  "tool_content e out =
     (case out of Inl err \<Rightarrow> error_payload e err | Inr res \<Rightarrow> json_stringify e res)"

definition tool_message :: "env \<Rightarrow> tool_call \<times> (thrown + json) \<Rightarrow> message \<Rightarrow> bool" where
  "tool_message e p m =
     (msg_role m = Tool \<and> content m = tool_content e (snd p) \<and> toolCalls m = None \<and>
      toolCallId m = Some (call_id (fst p)))"

text \<open>A run of steps that appends the messages \<open>ms\<close> to the history and to the store.\<close>

definition grows :: "string \<Rightarrow> message list \<Rightarrow> world \<Rightarrow> world \<Rightarrow> bool" where
  "grows t ms w w' =
     (threadId (state w) = Some t \<and>
      state w' = (state w)\<lparr>conversationHistory := conversationHistory (state w) @ ms\<rparr> \<and>
      agent_messages w' = agent_messages w @ map (row_of t) ms)"

text \<open>The history a turn starts from: \<open>chat\<close> opens a new thread when none is active.\<close>

definition base_history :: "world \<Rightarrow> message list" where
  "base_history w =
     (if truthy (threadId (state w)) then conversationHistory (state w) else [])"

text \<open>A sequence of \<open>chat\<close> calls on one agent, stopping at the first that throws.\<close>

fun chat_all :: "env \<Rightarrow> string list \<Rightarrow> world \<Rightarrow> (thrown + chat_result list) \<times> world" where
  "chat_all e [] w = (Inr [], w)"
| "chat_all e (m # ms) w =
     (case chat e m w of
        (Inl err, w1) \<Rightarrow> (Inl err, w1)
      | (Inr r, w1) \<Rightarrow>
          (case chat_all e ms w1 of
             (Inl err, w2) \<Rightarrow> (Inl err, w2)
           | (Inr rs, w2) \<Rightarrow> (Inr (r # rs), w2)))"

text \<open>
  The history is in the order of its \<open>createdAt\<close> values, none of them later than the
  clock's present reading.
\<close>

definition time_ordered :: "env \<Rightarrow> world \<Rightarrow> bool" where
  "time_ordered e w =
     (sorted (map createdAt (conversationHistory (state w))) \<and>
      (\<forall>m\<in>set (conversationHistory (state w)). createdAt m \<le> date_now e (tick w)))"

text \<open>The model answers every request with at least one choice.\<close>

definition llm_answers :: "env \<Rightarrow> bool" where
  "llm_answers e = (\<forall>k req. \<exists>c cs. completions_create e k req = Inr (c # cs))"

section \<open>Example environments\<close>

text \<open>
  \<open>onStart\<close> on a new instance: the initial \<open>AgentState\<close> (the persona prompt is the
  argument) and the two empty tables.
\<close>

definition onStart :: "string \<Rightarrow> world" where
  "onStart prompt =
     \<lparr>state = \<lparr>threadId = None, systemPrompt = prompt, conversationHistory = []\<rparr>,
      mcpConnected = False, agent_messages = [], agent_threads = [], tick = 0,
      llm_log = [], tool_log = []\<rparr>"

definition quoted :: "string \<Rightarrow> string" where
  "quoted s = CHR 0x22 # s @ [CHR 0x22]"

text \<open>A serialiser for the examples: strings and one-member objects of a string.\<close>

definition sample_stringify :: "json \<Rightarrow> string" where
  "sample_stringify j =
     (case j of
        JStr s \<Rightarrow> quoted s
      | JObj [(k, JStr s)] \<Rightarrow> ''{'' @ quoted k @ '':'' @ quoted s @ ''}''
      | _ \<Rightarrow> ''null'')"

definition sample_parse :: "string \<Rightarrow> string + json" where
  "sample_parse s = (if s = ''{}'' then Inr (JObj []) else Inl ''Unexpected token in JSON'')"

text \<open>
  An environment with no tool provider, a model that answers every request with the same
  text, and a clock that advances with every reading.
\<close>

definition plain_env :: env where
  "plain_env =
     \<lparr>randomUUID = (\<lambda>n. replicate (Suc n) CHR ''u''),
      date_now = int,
      json_stringify = sample_stringify,
      json_parse = sample_parse,
      completions_create =
        (\<lambda>k req. Inr [\<lparr>cm_content = Some ''Use a single column.'', cm_tool_calls = None\<rparr>]),
      addMcpServer = (\<lambda>k. Inr None),
      getMcpServers = (\<lambda>k. None),
      d1_run = (\<lambda>k. None)\<rparr>"

text \<open>The same, with a model that fails every request.\<close>

definition failing_env :: env where
  "failing_env = plain_env\<lparr>completions_create := (\<lambda>k req. Inl (Error ''429 Too Many Requests''))\<rparr>"

text \<open>The same, with a model whose answer has no \<open>content\<close>.\<close>

definition silent_env :: env where
  "silent_env =
     plain_env\<lparr>completions_create :=
       (\<lambda>k req. Inr [\<lparr>cm_content = None, cm_tool_calls = None\<rparr>])\<rparr>"

text \<open>
  An environment with one ready provider that offers \<open>get_palette\<close>, and a model that
  answers a user message with two tool calls, the second to a tool nobody offers, and
  anything else with text.
\<close>

definition palette_call :: tool_call where
  "palette_call = \<lparr>call_id = ''call_1'', fn_name = ''get_palette'', fn_arguments = ''{}''\<rparr>"

definition missing_call :: tool_call where
  "missing_call = \<lparr>call_id = ''call_2'', fn_name = ''get_grid'', fn_arguments = ''{}''\<rparr>"

definition tools_env :: env where
  "tools_env =
     plain_env\<lparr>
       completions_create :=
         (\<lambda>k req. case last (messages req) of
            PlainParam r c \<Rightarrow>
              if r = User
              then Inr [\<lparr>cm_content = None, cm_tool_calls = Some [palette_call, missing_call]\<rparr>]
              else Inr [\<lparr>cm_content = Some ''Use indigo.'', cm_tool_calls = None\<rparr>]
          | _ \<Rightarrow> Inr [\<lparr>cm_content = Some ''Use indigo.'', cm_tool_calls = None\<rparr>]),
       getMcpServers :=
         (\<lambda>k. Some [Some \<lparr>server_state = Some ''ready'',
                           server_tools = Some [\<lparr>tool_name = ''get_palette'',
                                                 tool_description = None,
                                                 inputSchema = JObj []\<rparr>],
                           client = Some (\<lambda>nm args. Inr (JStr ''indigo''))\<rparr>])\<rparr>"

text \<open>The same provider, with a model that asks for the one tool it offers.\<close>

definition one_tool_env :: env where
  "one_tool_env =
     tools_env\<lparr>
       completions_create :=
         (\<lambda>k req. case last (messages req) of
            PlainParam r c \<Rightarrow>
              if r = User
              then Inr [\<lparr>cm_content = None, cm_tool_calls = Some [palette_call]\<rparr>]
              else Inr [\<lparr>cm_content = Some ''Use indigo.'', cm_tool_calls = None\<rparr>]
          | _ \<Rightarrow> Inr [\<lparr>cm_content = Some ''Use indigo.'', cm_tool_calls = None\<rparr>])\<rparr>"

text \<open>
  The same, except that \<open>randomUUID\<close> repeats itself once: the id drawn for the tool result
  is the id of the assistant message before it.
\<close>

definition colliding_env :: env where
  "colliding_env =
     one_tool_env\<lparr>randomUUID :=
       (\<lambda>n. if n = 12 then ''uuuuuuuuu'' else replicate (Suc n) CHR ''u'')\<rparr>"

text \<open>
  An environment with no provider, a model that answers a user message with one tool
  call, and a clock that stands still between two awaited calls (the time of a Worker does
  not advance while it computes): the assistant message and the \<open>tool\<close> message after it
  get the same \<open>createdAt\<close>.
\<close>

definition same_ms_env :: env where
  "same_ms_env =
     plain_env\<lparr>
       date_now := (\<lambda>k. if k < 7 then 1000 else if k < 15 then 2000 else 3000),
       completions_create :=
         (\<lambda>k req. case last (messages req) of
            PlainParam r c \<Rightarrow>
              if r = User
              then Inr [\<lparr>cm_content = None, cm_tool_calls = Some [missing_call]\<rparr>]
              else Inr [\<lparr>cm_content = Some ''Use a grid.'', cm_tool_calls = None\<rparr>]
          | _ \<Rightarrow> Inr [\<lparr>cm_content = Some ''Use a grid.'', cm_tool_calls = None\<rparr>])\<rparr>"

text \<open>
  An environment with no provider and a model whose one tool call has the empty string
  for its \<open>id\<close>.
\<close>

definition blank_call :: tool_call where
  "blank_call = \<lparr>call_id = [], fn_name = ''get_grid'', fn_arguments = ''{}''\<rparr>"

definition empty_id_env :: env where
  "empty_id_env =
     plain_env\<lparr>
       completions_create :=
         (\<lambda>k req. case last (messages req) of
            PlainParam r c \<Rightarrow>
              if r = User
              then Inr [\<lparr>cm_content = None, cm_tool_calls = Some [blank_call]\<rparr>]
              else Inr [\<lparr>cm_content = Some ''Use a grid.'', cm_tool_calls = None\<rparr>]
          | _ \<Rightarrow> Inr [\<lparr>cm_content = Some ''Use a grid.'', cm_tool_calls = None\<rparr>])\<rparr>"

text \<open>The plain environment, with a clock that is set back during the first turn.\<close>

definition set_back_env :: env where
  "set_back_env = plain_env\<lparr>date_now := (\<lambda>k. if k < 6 then 2000 else 1000)\<rparr>"

text \<open>
  A store written earlier (two ids drawn) that holds, for its one thread, a \<open>tool\<close> row
  whose \<open>tool_call_id\<close> is \<open>NULL\<close>.
\<close>

definition orphan_world :: world where
  "orphan_world =
     (onStart ''You are a UX Architect'')\<lparr>
        agent_threads :=
          [\<lparr>thr_id = ''u'', title = None, thr_created_at = 1, updated_at = 2\<rparr>],
        agent_messages :=
          [\<lparr>row_id = ''uu'', thread_id = ''u'', row_role = Tool, row_content = ''indigo'',
            tool_calls = None, tool_call_id = None, created_at = 2\<rparr>],
        tick := 2\<rparr>"

definition orphan_loaded :: world where
  "orphan_loaded = snd (loadThread plain_env ''u'' orphan_world)"

text \<open>The turns and stores the examples below speak about.\<close>

definition fresh_thread :: "env \<Rightarrow> world" where
  "fresh_thread e = snd (createThread e None (onStart ''You are a UX Architect''))"

definition plain_chats :: "(thrown + chat_result list) \<times> world" where
  "plain_chats = chat_all plain_env [''Design a login form'', ''Make it darker'']
     (fresh_thread plain_env)"

definition tools_turn :: "(thrown + chat_result) \<times> world" where
  "tools_turn = chat tools_env ''Pick colours'' (onStart ''You are a UX Architect'')"


definition colliding_turn :: "(thrown + chat_result) \<times> world" where
  "colliding_turn = chat colliding_env ''Pick colours'' (onStart ''You are a UX Architect'')"

definition tools_chats :: "(thrown + chat_result list) \<times> world" where
  "tools_chats = chat_all tools_env [''Pick colours''] (fresh_thread tools_env)"

definition failing_turn :: "(thrown + chat_result) \<times> world" where
  "failing_turn = chat failing_env ''Design a login form'' (onStart ''You are a UX Architect'')"

definition silent_turn :: "(thrown + chat_result) \<times> world" where
  "silent_turn = chat silent_env ''Design a login form'' (onStart ''You are a UX Architect'')"

definition same_ms_chats :: "(thrown + chat_result list) \<times> world" where
  "same_ms_chats = chat_all same_ms_env [''Lay out the page''] (fresh_thread same_ms_env)"

definition empty_id_chats :: "(thrown + chat_result list) \<times> world" where
  "empty_id_chats = chat_all empty_id_env [''Lay out the page''] (fresh_thread empty_id_env)"

definition empty_id_turn :: "(thrown + chat_result) \<times> world" where
  "empty_id_turn = chat empty_id_env ''Lay out the page'' (onStart ''You are a UX Architect'')"

definition set_back_chats :: "(thrown + chat_result list) \<times> world" where
  "set_back_chats = chat_all set_back_env [''Design a login form''] (fresh_thread set_back_env)"

definition orphan_turn :: "(thrown + chat_result) \<times> world" where
  "orphan_turn = chat plain_env ''Continue'' orphan_loaded"

section \<open>What each step of a turn keeps\<close>

lemma ids_minted_frame: "ids_minted e w \<Longrightarrow> frame w w' \<Longrightarrow> ids_minted e w'"
  unfolding ids_minted_def frame_def by (metis less_le_trans)

lemma wf_world_frame: "wf_world e w \<Longrightarrow> frame w w' \<Longrightarrow> wf_world e w'"
  unfolding wf_world_def
  using ids_minted_frame [of e w w']
  by (auto simp: frame_def owned_def active_known_def split: option.splits)

lemma in_sync_frame: "in_sync w \<Longrightarrow> frame w w' \<Longrightarrow> in_sync w'"
  by (auto simp: frame_def in_sync_def messagesFor_def split: option.splits)

lemma keeps_frame: "wf_world e w \<Longrightarrow> frame w w' \<Longrightarrow> keeps e w w'"
  using wf_world_frame in_sync_frame by (auto simp: keeps_def)

lemma keeps_wf: "keeps e w w' \<Longrightarrow> wf_world e w'"
  by (simp add: keeps_def)

lemma keeps_trans: "keeps e w w1 \<Longrightarrow> keeps e w1 w2 \<Longrightarrow> keeps e w w2"
  by (simp add: keeps_def)

lemma thr_ids_append:
  "step_append t m w w' \<Longrightarrow> thr_id ` set (agent_threads w') = thr_id ` set (agent_threads w)"
  unfolding step_append_def by (metis list.set_map)

lemma ids_minted_append:
  assumes "ids_minted e w" and "step_append t m w w'" and "msg_id m = randomUUID e (tick w)"
  shows "ids_minted e w'"
proof -
  have rows: "\<forall>r\<in>set (agent_messages w'). \<exists>k<tick w'. row_id r = randomUUID e k"
  proof
    fix r assume "r \<in> set (agent_messages w')"
    then consider "r \<in> set (agent_messages w)" | "r = row_of t m"
      using assms(2) by (auto simp: step_append_def)
    then show "\<exists>k<tick w'. row_id r = randomUUID e k"
    proof cases
      case 1
      then obtain k where "k < tick w" "row_id r = randomUUID e k"
        using assms(1) by (auto simp: ids_minted_def)
      moreover have "tick w < tick w'" using assms(2) by (simp add: step_append_def)
      ultimately show ?thesis by (meson less_trans)
    next
      case 2
      have "tick w < tick w'" using assms(2) by (simp add: step_append_def)
      then show ?thesis using 2 assms(3) by (auto simp: row_of_def)
    qed
  qed
  have thr: "\<forall>r\<in>set (agent_threads w'). \<exists>k<tick w'. thr_id r = randomUUID e k"
  proof
    fix r assume "r \<in> set (agent_threads w')"
    then have "thr_id r \<in> thr_id ` set (agent_threads w)"
      using thr_ids_append [OF assms(2)] by blast
    then obtain r0 where "r0 \<in> set (agent_threads w)" "thr_id r0 = thr_id r" by auto
    then obtain k where "k < tick w" "thr_id r = randomUUID e k"
      using assms(1) by (auto simp: ids_minted_def)
    moreover have "tick w < tick w'" using assms(2) by (simp add: step_append_def)
    ultimately show "\<exists>k<tick w'. thr_id r = randomUUID e k" by (meson less_trans)
  qed
  show ?thesis using rows thr by (simp add: ids_minted_def)
qed

lemma owned_append:
  assumes "owned w" and "active_known w" and "step_append t m w w'"
  shows "owned w'" and "active_known w'"
  using assms thr_ids_append [OF assms(3)]
  by (auto simp: owned_def active_known_def step_append_def row_of_def split: option.splits)

lemma in_sync_append:
  assumes "in_sync w" and "step_append t m w w'"
  shows "in_sync w'"
  using assms by (auto simp: in_sync_def step_append_def messagesFor_def row_of_def split: option.splits)

lemma keeps_append:
  assumes "wf_world e w" and "step_append t m w w'" and "msg_id m = randomUUID e (tick w)"
  shows "keeps e w w'"
proof -
  have "wf_world e w'"
    using assms ids_minted_append [of e w t m w'] owned_append [of w t m w']
    unfolding wf_world_def by blast
  then show ?thesis using in_sync_append [OF _ assms(2)] by (simp add: keeps_def)
qed

lemma append_message_history:
  assumes "append_message e r c tcs tcid w = (out, w')"
  shows "state w' = (state w)\<lparr>conversationHistory :=
           conversationHistory (state w) @ [mk_message e (tick w) r c tcs tcid]\<rparr>"
    and "llm_log w' = llm_log w" and "tool_log w' = tool_log w"
    and "tick w \<le> tick w'"
    and "map thr_id (agent_threads w') = map thr_id (agent_threads w)"
  using assms
  by (auto simp: append_message_def persistMessage_def insert_message_def next_uuid_def
      next_now_def setState_def mk_message_def Let_def comp_def
      split: option.splits if_splits prod.splits sum.splits)

lemma append_message_Inr:
  assumes "append_message e r c tcs tcid w = (Inr h, w')"
  shows "\<exists>t. step_append t (mk_message e (tick w) r c tcs tcid) w w'"
    and "h = conversationHistory (state w')"
  using assms
  by (auto simp: append_message_def persistMessage_def insert_message_def next_uuid_def
      next_now_def setState_def mk_message_def step_append_def Let_def comp_def
      split: option.splits if_splits prod.splits sum.splits)

lemma append_message_Inl:
  assumes "append_message e r c tcs tcid w = (Inl err, w')"
  shows "agent_messages w' = agent_messages w"
  using assms
  by (auto simp: append_message_def persistMessage_def insert_message_def next_uuid_def
      next_now_def setState_def mk_message_def Let_def
      split: option.splits if_splits prod.splits sum.splits)

lemma append_message_fresh:
  assumes "threadId (state w) = Some t"
    and "randomUUID e (tick w) \<notin> row_id ` set (agent_messages w)"
  shows "\<exists>h w'. append_message e r c tcs tcid w = (Inr h, w')"
  using assms
  by (auto simp: append_message_def persistMessage_def insert_message_def next_uuid_def
      next_now_def setState_def row_of_def Let_def
      split: option.splits if_splits prod.splits sum.splits)

lemma createThread_Inr:
  assumes "createThread e ttl w = (Inr tid, w')"
  shows "tid = randomUUID e (tick w)"
    and "state w' = (state w)\<lparr>threadId := Some tid, conversationHistory := []\<rparr>"
    and "agent_messages w' = agent_messages w"
    and "thr_id ` set (agent_threads w') = insert tid (thr_id ` set (agent_threads w))"
    and "tid \<notin> thr_id ` set (agent_threads w)"
    and "tick w' = tick w + 2"
    and "llm_log w' = llm_log w" and "tool_log w' = tool_log w"
  using assms
  by (auto simp: createThread_def insert_thread_def next_uuid_def next_now_def setState_def
      Let_def split: if_splits prod.splits sum.splits)

lemma createThread_logs:
  assumes "createThread e ttl w = (out, w')"
  shows "llm_log w' = llm_log w" and "tool_log w' = tool_log w"
  using assms
  by (auto simp: createThread_def insert_thread_def next_uuid_def next_now_def setState_def
      Let_def split: if_splits prod.splits sum.splits)

lemma createThread_fresh:
  assumes "randomUUID e (tick w) \<notin> thr_id ` set (agent_threads w)"
  shows "\<exists>w'. createThread e ttl w = (Inr (randomUUID e (tick w)), w')"
  using assms
  by (auto simp: createThread_def insert_thread_def next_uuid_def next_now_def setState_def
      Let_def split: if_splits prod.splits sum.splits)

lemma minted_fresh:
  assumes "inj (randomUUID e)" and "ids_minted e w"
  shows "randomUUID e (tick w) \<notin> thr_id ` set (agent_threads w)"
    and "randomUUID e (tick w) \<notin> row_id ` set (agent_messages w)"
proof -
  show "randomUUID e (tick w) \<notin> thr_id ` set (agent_threads w)"
  proof
    assume "randomUUID e (tick w) \<in> thr_id ` set (agent_threads w)"
    then obtain r where "r \<in> set (agent_threads w)" "thr_id r = randomUUID e (tick w)" by auto
    then obtain k where "k < tick w" "randomUUID e k = randomUUID e (tick w)"
      using assms(2) by (auto simp: ids_minted_def)
    then show False using assms(1) by (auto dest: injD)
  qed
  show "randomUUID e (tick w) \<notin> row_id ` set (agent_messages w)"
  proof
    assume "randomUUID e (tick w) \<in> row_id ` set (agent_messages w)"
    then obtain r where "r \<in> set (agent_messages w)" "row_id r = randomUUID e (tick w)" by auto
    then obtain k where "k < tick w" "randomUUID e k = randomUUID e (tick w)"
      using assms(2) by (auto simp: ids_minted_def)
    then show False using assms(1) by (auto dest: injD)
  qed
qed

lemma createThread_inv:
  assumes "ids_minted e w" and "owned w" and "createThread e ttl w = (Inr tid, w')"
  shows "wf_world e w'" and "in_sync w'"
proof -
  note c = createThread_Inr [OF assms(3)]
  have st: "threadId (state w') = Some tid" "conversationHistory (state w') = []"
    using c(2) by simp_all
  have minted: "ids_minted e w'"
  proof -
    have "\<forall>r\<in>set (agent_messages w'). \<exists>k<tick w'. row_id r = randomUUID e k"
      using assms(1) c(3,6) unfolding ids_minted_def by (metis trans_less_add1)
    moreover have "\<forall>r\<in>set (agent_threads w'). \<exists>k<tick w'. thr_id r = randomUUID e k"
    proof
      fix r assume "r \<in> set (agent_threads w')"
      then have "thr_id r \<in> insert tid (thr_id ` set (agent_threads w))" using c(4) by blast
      then consider "thr_id r = tid" | r0 where "r0 \<in> set (agent_threads w)" "thr_id r0 = thr_id r"
        by auto
      then show "\<exists>k<tick w'. thr_id r = randomUUID e k"
      proof cases
        case 1
        then show ?thesis using c(1,6) by (metis less_add_same_cancel1 zero_less_numeral)
      next
        case 2
        then obtain k where "k < tick w" "thr_id r = randomUUID e k"
          using assms(1) by (auto simp: ids_minted_def)
        then show ?thesis using c(6) by (metis trans_less_add1)
      qed
    qed
    ultimately show ?thesis by (simp add: ids_minted_def)
  qed
  have own: "owned w'" using assms(2) c(3,4) by (auto simp: owned_def)
  have act: "active_known w'" using st c(4) by (simp add: active_known_def)
  show "wf_world e w'" using minted own act by (simp add: wf_world_def)
  have "messagesFor tid w' = []"
    using assms(2) c(3,5) by (auto simp: messagesFor_def owned_def filter_empty_conv)
  then show "in_sync w'" using st by (simp add: in_sync_def)
qed

lemma ensure_thread_logs:
  assumes "ensure_thread e w = (out, w')"
  shows "llm_log w' = llm_log w" and "tool_log w' = tool_log w"
  using assms createThread_logs [of e None w]
  by (auto simp: ensure_thread_def split: if_splits prod.splits sum.splits)

lemma ensure_thread_Inr:
  assumes "ensure_thread e w = (Inr u, w')"
  shows "\<exists>t. threadId (state w') = Some t"
    and "systemPrompt (state w') = systemPrompt (state w)"
    and "conversationHistory (state w') =
           (if truthy (threadId (state w)) then conversationHistory (state w) else [])"
    and "agent_messages w' = agent_messages w"
    and "truthy (threadId (state w)) \<Longrightarrow> w' = w"
  using assms createThread_Inr(2,3) [of e None w]
  by (auto simp: ensure_thread_def truthy_def split: if_splits prod.splits sum.splits option.splits)

lemma ensure_thread_inv:
  assumes "inj (randomUUID e)" and "wf_world e w"
  shows "\<exists>w'. ensure_thread e w = (Inr (), w') \<and> keeps e w w'"
proof (cases "truthy (threadId (state w))")
  case True
  then show ?thesis using assms(2) by (simp add: ensure_thread_def keeps_def)
next
  case False
  have m: "ids_minted e w" "owned w" using assms(2) by (simp_all add: wf_world_def)
  obtain w' where c: "createThread e None w = (Inr (randomUUID e (tick w)), w')"
    using createThread_fresh [OF minted_fresh(1) [OF assms(1) m(1)]] by blast
  have "keeps e w w'" using createThread_inv [OF m c] by (simp add: keeps_def)
  then show ?thesis using False c by (simp add: ensure_thread_def)
qed

lemma connectToStitch_frame:
  shows "frame w (snd (connectToStitch e w))"
    and "llm_log (snd (connectToStitch e w)) = llm_log w"
    and "tool_log (snd (connectToStitch e w)) = tool_log w"
  by (auto simp: connectToStitch_def frame_def Let_def split: sum.splits thrown.splits)

lemma getMcpTools_frame:
  assumes "getMcpTools e w = (tls, w')"
  shows "frame w w'" and "llm_log w' = llm_log w" and "tool_log w' = tool_log w"
  using assms by (auto simp: getMcpTools_def frame_def Let_def split: option.splits)

lemma complete_frame:
  assumes "complete e req w = (out, w')"
  shows "frame w w'" and "tool_log w' = tool_log w"
    and "llm_log w' = llm_log w @ [(req, completions_create e (tick w) req)]"
  using assms
  by (auto simp: complete_def create_completion_def frame_def Let_def split: sum.splits)

lemma complete_Inr:
  assumes "complete e req w = (Inr c, w')"
  shows "\<exists>cs. completions_create e (tick w) req = Inr (c # cs)"
  using assms
  by (auto simp: complete_def create_completion_def first_choice_def Let_def
      split: sum.splits list.splits)

lemma complete_Inl:
  assumes "complete e req w = (Inl err, w')"
  shows "completions_create e (tick w) req = Inl err \<or> completions_create e (tick w) req = Inr []"
  using assms
  by (auto simp: complete_def create_completion_def first_choice_def Let_def
      split: sum.splits list.splits)

lemma invoke_tool_frame:
  assumes "invoke_tool e tc w = (out, w')"
  shows "frame w w'" and "llm_log w' = llm_log w" and "tool_log w' = tool_log w @ [(tc, out)]"
  using assms
  by (auto simp: invoke_tool_def executeMcpTool_def frame_def Let_def
      split: sum.splits option.splits prod.splits)

lemma append_message_inv:
  assumes "inj (randomUUID e)" and "wf_world e w" and "threadId (state w) = Some t"
  shows "\<exists>h w'. append_message e r c tcs tcid w = (Inr h, w') \<and>
           step_append t (mk_message e (tick w) r c tcs tcid) w w' \<and> keeps e w w'"
proof -
  have "ids_minted e w" using assms(2) by (simp add: wf_world_def)
  from minted_fresh(2) [OF assms(1) this] obtain h w'
    where a: "append_message e r c tcs tcid w = (Inr h, w')"
    using append_message_fresh [OF assms(3)] by blast
  obtain t' where s: "step_append t' (mk_message e (tick w) r c tcs tcid) w w'"
    using append_message_Inr(1) [OF a] by blast
  then have "t' = t" using assms(3) by (simp add: step_append_def)
  then have s': "step_append t (mk_message e (tick w) r c tcs tcid) w w'" using s by simp
  have "keeps e w w'"
    using keeps_append [OF assms(2) s'] by (simp add: mk_message_def)
  then show ?thesis using a s' by blast
qed

lemma grows_trans:
  "grows t ms w w1 \<Longrightarrow> grows t ms' w1 w2 \<Longrightarrow> grows t (ms @ ms') w w2"
  by (auto simp: grows_def)

lemma grows_append: "step_append t m w w' \<Longrightarrow> grows t [m] w w'"
  by (simp add: grows_def step_append_def)

lemma grows_frame_left: "frame w w1 \<Longrightarrow> grows t ms w1 w2 \<Longrightarrow> grows t ms w w2"
  by (simp add: grows_def frame_def)

lemma grows_frame_right: "grows t ms w w1 \<Longrightarrow> frame w1 w2 \<Longrightarrow> grows t ms w w2"
  by (simp add: grows_def frame_def)

lemma grows_thread: "grows t ms w w' \<Longrightarrow> threadId (state w') = Some t"
  by (simp add: grows_def)

lemma grows_prompt: "grows t ms w w' \<Longrightarrow> systemPrompt (state w') = systemPrompt (state w)"
  by (simp add: grows_def)

lemma grows_history:
  "grows t ms w w' \<Longrightarrow> conversationHistory (state w') = conversationHistory (state w) @ ms"
  by (simp add: grows_def)

lemma tool_call_step_inv:
  assumes "inj (randomUUID e)" and "wf_world e w" and "threadId (state w) = Some t"
  shows "\<exists>out m w'. tool_call_step e tc w = (Inr (), w') \<and> keeps e w w' \<and>
           llm_log w' = llm_log w \<and> tool_log w' = tool_log w @ [(tc, out)] \<and>
           grows t [m] w w' \<and> tool_message e (tc, out) m"
proof -
  obtain out w1 where i: "invoke_tool e tc w = (out, w1)" by (cases "invoke_tool e tc w")
  note f = invoke_tool_frame [OF i]
  have k1: "keeps e w w1" using keeps_frame [OF assms(2) f(1)] .
  have t1: "threadId (state w1) = Some t" using f(1) assms(3) by (simp add: frame_def)
  obtain h w' where a:
    "append_message e Tool (tool_content e out) None (Some (call_id tc)) w1 = (Inr h, w')"
    "step_append t (mk_message e (tick w1) Tool (tool_content e out) None (Some (call_id tc))) w1 w'"
    "keeps e w1 w'"
    using append_message_inv [OF assms(1) keeps_wf [OF k1] t1] by blast
  let ?m = "mk_message e (tick w1) Tool (tool_content e out) None (Some (call_id tc))"
  have step: "tool_call_step e tc w = (Inr (), w')"
    using i a(1)
    by (cases out) (simp_all add: tool_call_step_def try_tool_call_def tool_content_def)
  have "grows t [?m] w w'" using grows_frame_left [OF f(1) grows_append [OF a(2)]] .
  moreover have "tool_message e (tc, out) ?m" by (simp add: tool_message_def mk_message_def)
  moreover have "llm_log w' = llm_log w" "tool_log w' = tool_log w @ [(tc, out)]"
    using a(2) f(2,3) by (simp_all add: step_append_def)
  ultimately show ?thesis using step keeps_trans [OF k1 a(3)] by blast
qed

lemma run_tool_calls_inv:
  assumes "inj (randomUUID e)" and "wf_world e w" and "threadId (state w) = Some t"
  shows "\<exists>outs ms w'. run_tool_calls e calls w = (Inr (), w') \<and> keeps e w w' \<and>
           llm_log w' = llm_log w \<and> tool_log w' = tool_log w @ outs \<and>
           map fst outs = calls \<and> list_all2 (tool_message e) outs ms \<and> grows t ms w w'"
  using assms(2,3)
proof (induction calls arbitrary: w)
  case Nil
  then show ?case by (auto simp: grows_def keeps_def)
next
  case (Cons tc calls)
  obtain out m w1 where s:
    "tool_call_step e tc w = (Inr (), w1)" "keeps e w w1" "llm_log w1 = llm_log w"
    "tool_log w1 = tool_log w @ [(tc, out)]" "grows t [m] w w1" "tool_message e (tc, out) m"
    using tool_call_step_inv [OF assms(1) Cons.prems(1,2)] by blast
  have t1: "threadId (state w1) = Some t" using grows_thread [OF s(5)] .
  obtain outs ms w' where r:
    "run_tool_calls e calls w1 = (Inr (), w')" "keeps e w1 w'" "llm_log w' = llm_log w1"
    "tool_log w' = tool_log w1 @ outs" "map fst outs = calls"
    "list_all2 (tool_message e) outs ms" "grows t ms w1 w'"
    using Cons.IH [OF keeps_wf [OF s(2)] t1] by blast
  have "run_tool_calls e (tc # calls) w = (Inr (), w')" using s(1) r(1) by simp
  moreover have "tool_log w' = tool_log w @ ((tc, out) # outs)" using s(4) r(4) by simp
  moreover have "map fst ((tc, out) # outs) = tc # calls" using r(5) by simp
  moreover have "list_all2 (tool_message e) ((tc, out) # outs) (m # ms)" using s(6) r(6) by simp
  moreover have "grows t (m # ms) w w'" using grows_trans [OF s(5) r(7)] by simp
  moreover have "llm_log w' = llm_log w" using s(3) r(3) by simp
  ultimately show ?case using keeps_trans [OF s(2) r(2)]
    by - (rule exI [of _ "(tc, out) # outs"], rule exI [of _ "m # ms"], rule exI [of _ w'], simp)
qed

lemma store_final_inv:
  assumes "inj (randomUUID e)" and "wf_world e w" and "threadId (state w) = Some t"
  shows "\<exists>f w'. store_final e rc w = (Inr \<lparr>response = rc, result_threadId = Some t\<rparr>, w') \<and>
           keeps e w w' \<and> llm_log w' = llm_log w \<and> tool_log w' = tool_log w \<and>
           grows t [f] w w' \<and>
           msg_role f = Assistant \<and> content f = rc \<and> toolCalls f = None \<and> toolCallId f = None"
proof -
  obtain h w' where a:
    "append_message e Assistant rc None None w = (Inr h, w')"
    "step_append t (mk_message e (tick w) Assistant rc None None) w w'" "keeps e w w'"
    using append_message_inv [OF assms] by blast
  let ?f = "mk_message e (tick w) Assistant rc None None"
  have g: "grows t [?f] w w'" using grows_append [OF a(2)] .
  have "store_final e rc w = (Inr \<lparr>response = rc, result_threadId = Some t\<rparr>, w')"
    using a(1) grows_thread [OF g] by (simp add: store_final_def)
  moreover have "llm_log w' = llm_log w" "tool_log w' = tool_log w"
    using a(2) by (simp_all add: step_append_def)
  moreover have "msg_role ?f = Assistant \<and> content ?f = rc \<and> toolCalls ?f = None \<and>
      toolCallId ?f = None"
    by (simp add: mk_message_def)
  ultimately show ?thesis using a(3) g by blast
qed

lemma tool_branch_wf:
  assumes "inj (randomUUID e)" and "wf_world e w" and "threadId (state w) = Some t"
    and "tool_branch e rc calls w = (out, w')"
  shows "\<exists>a ms outs req2 o2.
           keeps e w w' \<and> grows t (a # ms) w w' \<and>
           msg_role a = Assistant \<and> content a = rc \<and> toolCalls a = Some calls \<and>
           toolCallId a = None \<and>
           list_all2 (tool_message e) outs ms \<and> map fst outs = calls \<and>
           tool_log w' = tool_log w @ outs \<and> llm_log w' = llm_log w @ [(req2, o2)] \<and>
           tools req2 = None \<and> tool_choice req2 = None \<and>
           (\<exists>k. o2 = completions_create e k req2) \<and>
           messages req2 =
             build_messages (systemPrompt (state w)) (conversationHistory (state w) @ a # ms) \<and>
           (case out of
              Inl err \<Rightarrow> o2 = Inl err \<or> o2 = Inr []
            | Inr final \<Rightarrow> \<exists>c2 cs2. o2 = Inr (c2 # cs2) \<and> final = or_empty (cm_content c2))"
proof -
  let ?a = "mk_message e (tick w) Assistant rc (Some calls) None"
  obtain h w1 where a:
    "append_message e Assistant rc (Some calls) None w = (Inr h, w1)"
    "step_append t ?a w w1" "keeps e w w1"
    using append_message_inv [OF assms(1-3)] by blast
  have g1: "grows t [?a] w w1" using grows_append [OF a(2)] .
  have t1: "threadId (state w1) = Some t" using grows_thread [OF g1] .
  obtain outs ms w2 where r:
    "run_tool_calls e calls w1 = (Inr (), w2)" "keeps e w1 w2" "llm_log w2 = llm_log w1"
    "tool_log w2 = tool_log w1 @ outs" "map fst outs = calls"
    "list_all2 (tool_message e) outs ms" "grows t ms w1 w2"
    using run_tool_calls_inv [OF assms(1) keeps_wf [OF a(3)] t1] by blast
  have k2: "keeps e w w2" using keeps_trans [OF a(3) r(2)] .
  have g2: "grows t (?a # ms) w w2" using grows_trans [OF g1 r(7)] by simp
  let ?req = "\<lparr>model = ''gpt-4-turbo-preview'',
      messages = build_messages (systemPrompt (state w2)) (conversationHistory (state w2)),
      tools = None, tool_choice = None\<rparr>"
  obtain o3 w3 where c: "complete e ?req w2 = (o3, w3)" by (cases "complete e ?req w2")
  note f = complete_frame [OF c]
  let ?o2 = "completions_create e (tick w2) ?req"
  have tb: "tool_branch e rc calls w = (case o3 of Inl err \<Rightarrow> (Inl err, w3)
              | Inr followUp \<Rightarrow> (Inr (or_empty (cm_content followUp)), w3))"
    using a(1) r(1) c by (simp add: tool_branch_def Let_def split: sum.splits)
  have w': "w' = w3" using tb assms(4) by (auto split: sum.splits)
  have "keeps e w w'" using keeps_trans [OF k2 keeps_frame [OF keeps_wf [OF k2] f(1)]] w' by simp
  moreover have "grows t (?a # ms) w w'" using grows_frame_right [OF g2 f(1)] w' by simp
  moreover have "msg_role ?a = Assistant \<and> content ?a = rc \<and> toolCalls ?a = Some calls \<and>
      toolCallId ?a = None" by (simp add: mk_message_def)
  moreover have "tool_log w' = tool_log w @ outs"
    using f(2) r(4) a(2) w' by (simp add: step_append_def)
  moreover have "llm_log w' = llm_log w @ [(?req, ?o2)]"
    using f(3) r(3) a(2) w' by (simp add: step_append_def)
  moreover have "messages ?req =
      build_messages (systemPrompt (state w)) (conversationHistory (state w) @ ?a # ms)"
    using grows_prompt [OF g2] grows_history [OF g2] by simp
  moreover have "case out of
              Inl err \<Rightarrow> ?o2 = Inl err \<or> ?o2 = Inr []
            | Inr final \<Rightarrow> \<exists>c2 cs2. ?o2 = Inr (c2 # cs2) \<and> final = or_empty (cm_content c2)"
  proof (cases o3)
    case (Inl err)
    then have "out = Inl err" using tb assms(4) by simp
    then show ?thesis using complete_Inl [of e ?req w2 err w3] c Inl by simp
  next
    case (Inr c2)
    then have "out = Inr (or_empty (cm_content c2))" using tb assms(4) by simp
    then show ?thesis using complete_Inr [of e ?req w2 c2 w3] c Inr by auto
  qed
  moreover have "\<exists>k. ?o2 = completions_create e k ?req" by blast
  ultimately show ?thesis using r(5,6)
    by - (rule exI [of _ ?a], rule exI [of _ ms], rule exI [of _ outs], rule exI [of _ ?req],
        rule exI [of _ ?o2], simp)
qed

lemma after_first_wf:
  assumes "inj (randomUUID e)" and "wf_world e w" and "threadId (state w) = Some t"
    and "after_first e c1 w = (out, w')"
  obtains (plain) f where
      "cm_tool_calls c1 = None \<or> cm_tool_calls c1 = Some []"
      "out = Inr \<lparr>response = or_empty (cm_content c1), result_threadId = Some t\<rparr>"
      "keeps e w w'" "grows t [f] w w'"
      "llm_log w' = llm_log w" "tool_log w' = tool_log w"
      "msg_role f = Assistant" "content f = or_empty (cm_content c1)"
      "toolCalls f = None" "toolCallId f = None"
  | (tool_round) calls a ms fin outs req2 o2 where
      "cm_tool_calls c1 = Some calls" "calls \<noteq> []"
      "keeps e w w'" "grows t (a # ms @ fin) w w'"
      "msg_role a = Assistant" "content a = or_empty (cm_content c1)"
      "toolCalls a = Some calls" "toolCallId a = None"
      "list_all2 (tool_message e) outs ms" "map fst outs = calls"
      "tool_log w' = tool_log w @ outs" "llm_log w' = llm_log w @ [(req2, o2)]"
      "tools req2 = None" "tool_choice req2 = None"
      "\<exists>k. o2 = completions_create e k req2"
      "messages req2 =
         build_messages (systemPrompt (state w)) (conversationHistory (state w) @ a # ms)"
      "(\<exists>err. out = Inl err \<and> (o2 = Inl err \<or> o2 = Inr []) \<and> fin = []) \<or>
       (\<exists>c2 cs2 f. o2 = Inr (c2 # cs2) \<and>
          out = Inr \<lparr>response = or_empty (cm_content c2), result_threadId = Some t\<rparr> \<and>
          fin = [f] \<and> msg_role f = Assistant \<and> content f = or_empty (cm_content c2) \<and>
          toolCalls f = None \<and> toolCallId f = None)"
proof (cases "\<exists>tc tcs. cm_tool_calls c1 = Some (tc # tcs)")
  case False
  then have none: "cm_tool_calls c1 = None \<or> cm_tool_calls c1 = Some []"
    by (cases "cm_tool_calls c1") (auto intro: list.exhaust)

  then have "after_first e c1 w = store_final e (or_empty (cm_content c1)) w"
    by (auto simp: after_first_def)
  then have s: "store_final e (or_empty (cm_content c1)) w = (out, w')" using assms(4) by simp
  obtain f w2 where sf:
    "store_final e (or_empty (cm_content c1)) w =
       (Inr \<lparr>response = or_empty (cm_content c1), result_threadId = Some t\<rparr>, w2)"
    "keeps e w w2" "llm_log w2 = llm_log w" "tool_log w2 = tool_log w" "grows t [f] w w2"
    "msg_role f = Assistant" "content f = or_empty (cm_content c1)"
    "toolCalls f = None" "toolCallId f = None"
    using store_final_inv [OF assms(1-3)] by blast
  have "out = Inr \<lparr>response = or_empty (cm_content c1), result_threadId = Some t\<rparr>" "w' = w2"
    using s sf(1) by simp_all
  then show ?thesis using plain [OF none] sf by simp
next
  case True
  then obtain tc tcs where calls: "cm_tool_calls c1 = Some (tc # tcs)" by blast
  let ?rc = "or_empty (cm_content c1)"
  obtain ob w1 where tb: "tool_branch e ?rc (tc # tcs) w = (ob, w1)"
    by (cases "tool_branch e ?rc (tc # tcs) w")
  obtain a ms outs req2 o2 k where b:
    "keeps e w w1" "grows t (a # ms) w w1"
    "msg_role a = Assistant" "content a = ?rc" "toolCalls a = Some (tc # tcs)"
    "toolCallId a = None"
    "list_all2 (tool_message e) outs ms" "map fst outs = tc # tcs"
    "tool_log w1 = tool_log w @ outs" "llm_log w1 = llm_log w @ [(req2, o2)]"
    "tools req2 = None" "tool_choice req2 = None"
    "o2 = completions_create e k req2"
    "messages req2 =
       build_messages (systemPrompt (state w)) (conversationHistory (state w) @ a # ms)"
    "case ob of
       Inl err \<Rightarrow> o2 = Inl err \<or> o2 = Inr []
     | Inr final \<Rightarrow> \<exists>c2 cs2. o2 = Inr (c2 # cs2) \<and> final = or_empty (cm_content c2)"
    using tool_branch_wf [OF assms(1-3) tb] by (elim exE conjE) (rule that)
  have k2: "\<exists>k. o2 = completions_create e k req2" using b(13) by blast
  have af: "after_first e c1 w =
      (case ob of Inl err \<Rightarrow> (Inl err, w1) | Inr final \<Rightarrow> store_final e final w1)"
    using calls tb by (simp add: after_first_def Let_def split: sum.splits)
  show ?thesis
  proof (cases ob)
    case (Inl err)
    then have "out = Inl err" "w' = w1" using af assms(4) by simp_all
    moreover have "o2 = Inl err \<or> o2 = Inr []" using b(15) Inl by simp
    ultimately show ?thesis
      using tool_round [of "tc # tcs" a ms "[]" outs req2 o2] calls b(1-12,14) k2 by simp
  next
    case (Inr final)
    then obtain c2 cs2 where o2: "o2 = Inr (c2 # cs2)" "final = or_empty (cm_content c2)"
      using b(15) by auto
    have t1: "threadId (state w1) = Some t" using grows_thread [OF b(2)] .
    obtain f w2 where sf:
      "store_final e final w1 = (Inr \<lparr>response = final, result_threadId = Some t\<rparr>, w2)"
      "keeps e w1 w2" "llm_log w2 = llm_log w1" "tool_log w2 = tool_log w1" "grows t [f] w1 w2"
      "msg_role f = Assistant" "content f = final" "toolCalls f = None" "toolCallId f = None"
      using store_final_inv [OF assms(1) keeps_wf [OF b(1)] t1] by blast
    have kk: "keeps e w w2" using keeps_trans [OF b(1) sf(2)] .
    have res: "out = Inr \<lparr>response = final, result_threadId = Some t\<rparr>" "w' = w2"
      using af assms(4) Inr sf(1) by simp_all
    have g: "grows t (a # ms @ [f]) w w'"
      using grows_trans [OF b(2) sf(5)] res(2) by simp
    show ?thesis
      using tool_round [of "tc # tcs" a ms "[f]" outs req2 o2] calls b(3-12,14) k2 g kk
        sf(3,4,6-9) res o2
      by simp
  qed
qed

lemma chat_cases:
  assumes "inj (randomUUID e)" and "wf_world e w" and "chat e msg w = (out, w')"
  obtains (first_failed) t u req1 o1 err where
      "keeps e w w'" "threadId (state w') = Some t"
      "systemPrompt (state w') = systemPrompt (state w)"
      "conversationHistory (state w') = base_history w @ [u]"
      "agent_messages w' = agent_messages w @ [row_of t u]"
      "msg_role u = User" "content u = msg" "toolCalls u = None" "toolCallId u = None"
      "messages req1 = build_messages (systemPrompt (state w)) (base_history w @ [u])"
      "llm_log w' = llm_log w @ [(req1, o1)]" "tool_log w' = tool_log w"
      "out = Inl err" "o1 = Inl err \<or> o1 = Inr []"
      "\<exists>k. o1 = completions_create e k req1"
      "truthy (threadId (state w)) \<longrightarrow> threadId (state w) = Some t"
  | (plain) t u req1 c1 cs1 f where
      "keeps e w w'" "threadId (state w') = Some t"
      "systemPrompt (state w') = systemPrompt (state w)"
      "conversationHistory (state w') = base_history w @ [u, f]"
      "agent_messages w' = agent_messages w @ [row_of t u, row_of t f]"
      "msg_role u = User" "content u = msg" "toolCalls u = None" "toolCallId u = None"
      "messages req1 = build_messages (systemPrompt (state w)) (base_history w @ [u])"
      "llm_log w' = llm_log w @ [(req1, Inr (c1 # cs1))]" "tool_log w' = tool_log w"
      "cm_tool_calls c1 = None \<or> cm_tool_calls c1 = Some []"
      "out = Inr \<lparr>response = or_empty (cm_content c1), result_threadId = Some t\<rparr>"
      "msg_role f = Assistant" "content f = or_empty (cm_content c1)"
      "toolCalls f = None" "toolCallId f = None"
      "\<exists>k. completions_create e k req1 = Inr (c1 # cs1)"
      "truthy (threadId (state w)) \<longrightarrow> threadId (state w) = Some t"
  | (tool_round) t u req1 c1 cs1 calls a ms fin outs req2 o2 where
      "keeps e w w'" "threadId (state w') = Some t"
      "systemPrompt (state w') = systemPrompt (state w)"
      "conversationHistory (state w') = base_history w @ u # a # ms @ fin"
      "agent_messages w' = agent_messages w @ map (row_of t) (u # a # ms @ fin)"
      "msg_role u = User" "content u = msg" "toolCalls u = None" "toolCallId u = None"
      "messages req1 = build_messages (systemPrompt (state w)) (base_history w @ [u])"
      "llm_log w' = llm_log w @ [(req1, Inr (c1 # cs1)), (req2, o2)]"
      "tool_log w' = tool_log w @ outs"
      "cm_tool_calls c1 = Some calls" "calls \<noteq> []"
      "msg_role a = Assistant" "content a = or_empty (cm_content c1)"
      "toolCalls a = Some calls" "toolCallId a = None"
      "list_all2 (tool_message e) outs ms" "map fst outs = calls"
      "tools req2 = None" "tool_choice req2 = None"
      "messages req2 =
         build_messages (systemPrompt (state w)) (base_history w @ u # a # ms)"
      "(\<exists>err. out = Inl err \<and> (o2 = Inl err \<or> o2 = Inr []) \<and> fin = []) \<or>
       (\<exists>c2 cs2 f. o2 = Inr (c2 # cs2) \<and>
          out = Inr \<lparr>response = or_empty (cm_content c2), result_threadId = Some t\<rparr> \<and>
          fin = [f] \<and> msg_role f = Assistant \<and> content f = or_empty (cm_content c2) \<and>
          toolCalls f = None \<and> toolCallId f = None)"
      "\<exists>k. completions_create e k req1 = Inr (c1 # cs1)"
      "\<exists>k. o2 = completions_create e k req2"
      "truthy (threadId (state w)) \<longrightarrow> threadId (state w) = Some t"
proof -
  obtain w1 where en: "ensure_thread e w = (Inr (), w1)" "keeps e w w1"
    using ensure_thread_inv [OF assms(1,2)] by blast
  obtain t where t1: "threadId (state w1) = Some t" using ensure_thread_Inr(1) [OF en(1)] by blast
  note e1 = ensure_thread_Inr(2-4) [OF en(1)] ensure_thread_logs [OF en(1)]
  have h1: "conversationHistory (state w1) = base_history w" using e1(2) by (simp add: base_history_def)
  define w2 where "w2 = snd (connectToStitch e w1)"
  note c2 = connectToStitch_frame [where w = w1 and e = e, folded w2_def]
  have k2': "keeps e w w2" using keeps_trans [OF en(2) keeps_frame [OF keeps_wf [OF en(2)] c2(1)]] .
  have wf2: "wf_world e w2" using keeps_wf [OF k2'] .
  have t2: "threadId (state w2) = Some t" using c2(1) t1 by (simp add: frame_def)
  let ?u = "mk_message e (tick w2) User msg None None"
  obtain h w3 where a:
    "append_message e User msg None None w2 = (Inr h, w3)" "step_append t ?u w2 w3"
    "keeps e w2 w3"
    using append_message_inv [OF assms(1) wf2 t2] by blast
  have g3: "grows t [?u] w1 w3" using grows_frame_left [OF c2(1) grows_append [OF a(2)]] .
  have h3: "h = base_history w @ [?u]"
    using append_message_Inr(2) [OF a(1)] grows_history [OF g3] h1 by simp
  obtain tls w4 where m: "getMcpTools e w3 = (tls, w4)" by (cases "getMcpTools e w3")
  note f4 = getMcpTools_frame [OF m]
  let ?req = "\<lparr>model = ''gpt-4-turbo-preview'',
      messages = build_messages (systemPrompt (state w3)) h,
      tools = (if tls \<noteq> [] then Some tls else None),
      tool_choice = (if tls \<noteq> [] then Some ''auto'' else None)\<rparr>"
  obtain o5 w5 where c: "complete e ?req w4 = (o5, w5)" by (cases "complete e ?req w4")
  note f5 = complete_frame [OF c]
  let ?o1 = "completions_create e (tick w4) ?req"
  have g5: "grows t [?u] w1 w5"
    using grows_frame_right [OF grows_frame_right [OF g3 f4(1)] f5(1)] .
  have k3: "keeps e w w3" using keeps_trans [OF k2' a(3)] .
  have k4: "keeps e w w4" using keeps_trans [OF k3 keeps_frame [OF keeps_wf [OF k3] f4(1)]] .
  have k5: "keeps e w w5" using keeps_trans [OF k4 keeps_frame [OF keeps_wf [OF k4] f5(1)]] .
  have wf5: "wf_world e w5" using keeps_wf [OF k5] .
  have t5: "threadId (state w5) = Some t" using grows_thread [OF g5] .
  have p5: "systemPrompt (state w5) = systemPrompt (state w)"
    using grows_prompt [OF g5] e1(1) by simp
  have hist5: "conversationHistory (state w5) = base_history w @ [?u]"
    using grows_history [OF g5] h1 by simp
  have rows5: "agent_messages w5 = agent_messages w @ [row_of t ?u]"
    using g5 e1(3) by (simp add: grows_def)
  have llm5: "llm_log w5 = llm_log w @ [(?req, ?o1)]"
    using f5(3) f4(2) a(2) c2(2) e1(4) by (simp add: step_append_def)
  have tl5: "tool_log w5 = tool_log w"
    using f5(2) f4(3) a(2) c2(3) e1(5) by (simp add: step_append_def)
  have req: "messages ?req = build_messages (systemPrompt (state w)) (base_history w @ [?u])"
    using h3 grows_prompt [OF g3] e1(1) by simp
  have k1: "\<exists>k. ?o1 = completions_create e k ?req" by blast
  have same: "truthy (threadId (state w)) \<longrightarrow> threadId (state w) = Some t"
    using ensure_thread_Inr(5) [OF en(1)] t1 by auto
  have u: "msg_role ?u = User" "content ?u = msg" "toolCalls ?u = None" "toolCallId ?u = None"
    by (simp_all add: mk_message_def)
  have ch: "chat e msg w =
      (case o5 of Inl err \<Rightarrow> (Inl err, w5) | Inr c1 \<Rightarrow> after_first e c1 w5)"
    using en(1) a(1) m c by (simp add: chat_def w2_def Let_def split: sum.splits)
  show ?thesis
  proof (cases o5)
    case (Inl err)
    then have "out = Inl err" "w' = w5" using ch assms(3) by simp_all
    moreover have "?o1 = Inl err \<or> ?o1 = Inr []"
      using complete_Inl [of e ?req w4 err w5] c Inl by simp
    ultimately show ?thesis
      using first_failed [of t ?u ?req ?o1 err] k5 t5 p5 hist5 rows5 u req llm5 tl5 k1 same
      by simp
  next
    case (Inr c1)
    then obtain cs1 where o1: "?o1 = Inr (c1 # cs1)"
      using complete_Inr [of e ?req w4 c1 w5] c by auto
    then have k1': "\<exists>k. completions_create e k ?req = Inr (c1 # cs1)" by blast
    have af: "after_first e c1 w5 = (out, w')" using ch assms(3) Inr by simp
    from assms(1) wf5 t5 af show ?thesis
    proof (cases rule: after_first_wf)
      case (plain f)
      have "conversationHistory (state w') = base_history w @ [?u, f]"
        using grows_history [OF plain(4)] hist5 by simp
      moreover have "agent_messages w' = agent_messages w @ [row_of t ?u, row_of t f]"
        using plain(4) rows5 by (simp add: grows_def)
      moreover have "systemPrompt (state w') = systemPrompt (state w)"
        using grows_prompt [OF plain(4)] p5 by simp
      moreover have "llm_log w' = llm_log w @ [(?req, Inr (c1 # cs1))]"
        using plain(5) llm5 o1 by simp
      moreover have "tool_log w' = tool_log w" using plain(6) tl5 by simp
      ultimately show ?thesis
        using that(2) [of t ?u f ?req c1 cs1] plain(1,2,7-10) keeps_trans [OF k5 plain(3)]
          grows_thread [OF plain(4)] u req k1' same
        by simp
    next
      case (tool_round calls a ms fin outs req2 o2)
      have "conversationHistory (state w') = base_history w @ ?u # a # ms @ fin"
        using grows_history [OF tool_round(4)] hist5 by simp
      moreover have "agent_messages w' = agent_messages w @ map (row_of t) (?u # a # ms @ fin)"
        using tool_round(4) rows5 by (simp add: grows_def)
      moreover have "systemPrompt (state w') = systemPrompt (state w)"
        using grows_prompt [OF tool_round(4)] p5 by simp
      moreover have "llm_log w' = llm_log w @ [(?req, Inr (c1 # cs1)), (req2, o2)]"
        using tool_round(12) llm5 o1 by simp
      moreover have "tool_log w' = tool_log w @ outs" using tool_round(11) tl5 by simp
      moreover have "messages req2 =
          build_messages (systemPrompt (state w)) (base_history w @ ?u # a # ms)"
        using tool_round(16) p5 hist5 by simp
      ultimately show ?thesis
        using that(3) [of t ?u a ms fin ?req c1 cs1 req2 o2 outs calls]
          tool_round(1,2,5-10,13-15,17) keeps_trans [OF k5 tool_round(3)]
          grows_thread [OF tool_round(4)] u req k1' same
        by simp
    qed
  qed
qed

section \<open>A turn keeps the history in the order of the clock\<close>

lemma time_ordered_frame:
  assumes "mono (date_now e)" and "time_ordered e w"
    and "conversationHistory (state w') = conversationHistory (state w)"
    and "tick w \<le> tick w'"
  shows "time_ordered e w'"
proof -
  have "date_now e (tick w) \<le> date_now e (tick w')" using assms(1,4) by (rule monoD)
  then show ?thesis using assms(2,3) by (fastforce simp: time_ordered_def)
qed

lemma time_ordered_empty:
  "conversationHistory (state w) = [] \<Longrightarrow> time_ordered e w"
  by (simp add: time_ordered_def)

lemma append_message_tick:
  assumes "append_message e r c tcs tcid w = (out, w')"
  shows "Suc (tick w) \<le> tick w'"
  using assms
  by (auto simp: append_message_def persistMessage_def insert_message_def next_uuid_def
      next_now_def setState_def Let_def
      split: option.splits if_splits prod.splits sum.splits)

lemma time_ordered_append_message:
  assumes "mono (date_now e)" and "time_ordered e w"
    and "append_message e r c tcs tcid w = (out, w')"
  shows "time_ordered e w'"
proof -
  let ?m = "mk_message e (tick w) r c tcs tcid"
  have h: "conversationHistory (state w') = conversationHistory (state w) @ [?m]"
    using append_message_history(1) [OF assms(3)] by simp
  have a: "date_now e (tick w) \<le> createdAt ?m"
    using monoD [OF assms(1), of "tick w" "Suc (tick w)"] by (simp add: mk_message_def)
  have b: "createdAt ?m \<le> date_now e (tick w')"
    using monoD [OF assms(1) append_message_tick [OF assms(3)]] by (simp add: mk_message_def)
  have old: "\<forall>m\<in>set (conversationHistory (state w)). createdAt m \<le> date_now e (tick w)"
    and srt: "sorted (map createdAt (conversationHistory (state w)))"
    using assms(2) by (simp_all add: time_ordered_def)
  have "sorted (map createdAt (conversationHistory (state w) @ [?m]))"
    using srt old a by (fastforce simp: sorted_append)
  moreover have "\<forall>m\<in>set (conversationHistory (state w) @ [?m]).
      createdAt m \<le> date_now e (tick w')"
    using old a b by fastforce
  ultimately show ?thesis using h by (simp add: time_ordered_def)
qed

lemma time_ordered_createThread:
  assumes "mono (date_now e)" and "time_ordered e w" and "createThread e ttl w = (out, w')"
  shows "time_ordered e w'"
proof -
  have "conversationHistory (state w') = [] \<or>
      (conversationHistory (state w') = conversationHistory (state w) \<and> tick w \<le> tick w')"
    using assms(3)
    by (auto simp: createThread_def insert_thread_def next_uuid_def next_now_def setState_def
        Let_def split: if_splits prod.splits sum.splits)
  then show ?thesis using time_ordered_empty time_ordered_frame [OF assms(1,2)] by blast
qed

lemma time_ordered_ensure_thread:
  assumes "mono (date_now e)" and "time_ordered e w" and "ensure_thread e w = (out, w')"
  shows "time_ordered e w'"
  using assms(3) assms(2) time_ordered_createThread [OF assms(1,2), of None]
  by (auto simp: ensure_thread_def split: if_splits prod.splits sum.splits)

lemma time_ordered_complete:
  assumes "mono (date_now e)" and "time_ordered e w" and "complete e req w = (out, w')"
  shows "time_ordered e w'"
  using time_ordered_frame [OF assms(1,2)] complete_frame(1) [OF assms(3)]
  by (simp add: frame_def)

lemma time_ordered_tool_call_step:
  assumes "mono (date_now e)" and "time_ordered e w" and "tool_call_step e tc w = (out, w')"
  shows "time_ordered e w'"
proof -
  obtain o1 w1 where i: "invoke_tool e tc w = (o1, w1)" by (cases "invoke_tool e tc w")
  have t1: "time_ordered e w1"
    using time_ordered_frame [OF assms(1,2)] invoke_tool_frame(1) [OF i] by (simp add: frame_def)
  show ?thesis
  proof (cases o1)
    case (Inl err)
    then show ?thesis
      using assms(3) i time_ordered_append_message [OF assms(1) t1]
      by (auto simp: tool_call_step_def try_tool_call_def split: prod.splits sum.splits)
  next
    case (Inr res)
    obtain o2 w2 where a:
      "append_message e Tool (json_stringify e res) None (Some (call_id tc)) w1 = (o2, w2)"
      by (cases "append_message e Tool (json_stringify e res) None (Some (call_id tc)) w1")
    have t2: "time_ordered e w2" using time_ordered_append_message [OF assms(1) t1 a] .
    show ?thesis
      using assms(3) i Inr a t2 time_ordered_append_message [OF assms(1) t2]
      by (auto simp: tool_call_step_def try_tool_call_def split: prod.splits sum.splits)
  qed
qed

lemma time_ordered_run_tool_calls:
  assumes "mono (date_now e)"
  shows "time_ordered e w \<Longrightarrow> run_tool_calls e tcs w = (out, w') \<Longrightarrow> time_ordered e w'"
proof (induction tcs arbitrary: w)
  case Nil
  then show ?case by simp
next
  case (Cons tc tcs)
  obtain o1 w1 where s: "tool_call_step e tc w = (o1, w1)" by (cases "tool_call_step e tc w")
  have t1: "time_ordered e w1" using time_ordered_tool_call_step [OF assms Cons.prems(1) s] .
  show ?case using Cons.prems(2) s t1 Cons.IH [OF t1]
    by (auto split: sum.splits)
qed

lemma time_ordered_store_final:
  assumes "mono (date_now e)" and "time_ordered e w" and "store_final e c w = (out, w')"
  shows "time_ordered e w'"
  using assms(3) time_ordered_append_message [OF assms(1,2)]
  by (auto simp: store_final_def split: prod.splits sum.splits)

lemma time_ordered_tool_branch:
  assumes "mono (date_now e)" and "time_ordered e w" and "tool_branch e c tcs w = (out, w')"
  shows "time_ordered e w'"
proof -
  obtain o1 w1 where a: "append_message e Assistant c (Some tcs) None w = (o1, w1)"
    by (cases "append_message e Assistant c (Some tcs) None w")
  have t1: "time_ordered e w1" using time_ordered_append_message [OF assms(1,2) a] .
  obtain o2 w2 where r: "run_tool_calls e tcs w1 = (o2, w2)" by (cases "run_tool_calls e tcs w1")
  have t2: "time_ordered e w2" using time_ordered_run_tool_calls [OF assms(1) t1 r] .
  show ?thesis
    using assms(3) a r t1 t2 time_ordered_complete [OF assms(1) t2]
    by (auto simp: tool_branch_def Let_def split: prod.splits sum.splits)
qed

lemma time_ordered_after_first:
  assumes "mono (date_now e)" and "time_ordered e w" and "after_first e am w = (out, w')"
  shows "time_ordered e w'"
proof (cases "\<exists>tc tcs. cm_tool_calls am = Some (tc # tcs)")
  case True
  then obtain tc tcs where c: "cm_tool_calls am = Some (tc # tcs)" by blast
  obtain o1 w1 where b: "tool_branch e (or_empty (cm_content am)) (tc # tcs) w = (o1, w1)"
    by (cases "tool_branch e (or_empty (cm_content am)) (tc # tcs) w")
  have t1: "time_ordered e w1" using time_ordered_tool_branch [OF assms(1,2) b] .
  show ?thesis
    using assms(3) c b t1 time_ordered_store_final [OF assms(1) t1]
    by (auto simp: after_first_def Let_def split: prod.splits sum.splits)
next
  case False
  then show ?thesis
    using assms(3) time_ordered_store_final [OF assms(1,2)]
    by (auto simp: after_first_def Let_def split: option.splits list.splits)
qed

lemma time_ordered_chat:
  assumes "mono (date_now e)" and "time_ordered e w" and "chat e msg w = (out, w')"
  shows "time_ordered e w'"
proof -
  obtain o1 w1 where en: "ensure_thread e w = (o1, w1)" by (cases "ensure_thread e w")
  have t1: "time_ordered e w1" using time_ordered_ensure_thread [OF assms(1,2) en] .
  define w2 where "w2 = snd (connectToStitch e w1)"
  have t2: "time_ordered e w2"
    using time_ordered_frame [OF assms(1) t1] connectToStitch_frame(1) [of w1 e]
    by (simp add: frame_def w2_def)
  obtain o3 w3 where a: "append_message e User msg None None w2 = (o3, w3)"
    by (cases "append_message e User msg None None w2")
  have t3: "time_ordered e w3" using time_ordered_append_message [OF assms(1) t2 a] .
  obtain tls w4 where g: "getMcpTools e w3 = (tls, w4)" by (cases "getMcpTools e w3")
  have t4: "time_ordered e w4"
    using time_ordered_frame [OF assms(1) t3] getMcpTools_frame(1) [OF g] by (simp add: frame_def)
  show ?thesis
  proof (cases o1)
    case (Inl err)
    then show ?thesis using assms(3) en t1 by (simp add: chat_def)
  next
    case (Inr u)
    show ?thesis
    proof (cases o3)
      case (Inl err)
      then show ?thesis using assms(3) en Inr a t3 by (simp add: chat_def w2_def Let_def)
    next
      case (Inr h)
      let ?req = "\<lparr>model = ''gpt-4-turbo-preview'',
          messages = build_messages (systemPrompt (state w3)) h,
          tools = (if tls \<noteq> [] then Some tls else None),
          tool_choice = (if tls \<noteq> [] then Some ''auto'' else None)\<rparr>"
      obtain o5 w5 where c: "complete e ?req w4 = (o5, w5)" by (cases "complete e ?req w4")
      have t5: "time_ordered e w5" using time_ordered_complete [OF assms(1) t4 c] .
      show ?thesis
      proof (cases o5)
        case (Inl err)
        then show ?thesis
          using assms(3) en \<open>o1 = Inr u\<close> a \<open>o3 = Inr h\<close> g c t5
          by (simp add: chat_def w2_def Let_def)
      next
        case (Inr am)
        then have "after_first e am w5 = (out, w')"
          using assms(3) en \<open>o1 = Inr u\<close> a \<open>o3 = Inr h\<close> g c
          by (simp add: chat_def w2_def Let_def)
        then show ?thesis using time_ordered_after_first [OF assms(1) t5] by blast
      qed
    qed
  qed
qed

lemma time_ordered_chat_all:
  assumes "mono (date_now e)"
  shows "time_ordered e w \<Longrightarrow> chat_all e msgs w = (out, w') \<Longrightarrow> time_ordered e w'"
proof (induction msgs arbitrary: w out w')
  case Nil
  then show ?case by simp
next
  case (Cons m ms)
  obtain o1 w1 where c: "chat e m w = (o1, w1)" by (cases "chat e m w")
  have t1: "time_ordered e w1" using time_ordered_chat [OF assms Cons.prems(1) c] .
  obtain o2 w2 where r: "chat_all e ms w1 = (o2, w2)" by (cases "chat_all e ms w1")
  have t2: "time_ordered e w2" using Cons.IH [OF t1 r] .
  show ?case using Cons.prems(2) c r t1 t2 by (auto split: sum.splits)
qed

section \<open>A turn keeps the store well formed\<close>

lemma chat_keeps:
  assumes "inj (randomUUID e)" and "wf_world e w" and "chat e msg w = (out, w')"
  shows "keeps e w w'" and "\<exists>t. threadId (state w') = Some t"
  using assms by (cases rule: chat_cases; simp)+

lemma chat_all_keeps:
  assumes "inj (randomUUID e)" and "wf_world e w" and "chat_all e msgs w = (out, w')"
  shows "keeps e w w'"
  using assms(2,3)
proof (induction msgs arbitrary: w out w')
  case Nil
  then show ?case by (simp add: keeps_def)
next
  case (Cons m ms)
  obtain o1 w1 where c: "chat e m w = (o1, w1)" by (cases "chat e m w")
  have k1: "keeps e w w1" using chat_keeps(1) [OF assms(1) Cons.prems(1) c] .
  show ?case
  proof (cases o1)
    case (Inl err)
    then show ?thesis using Cons.prems(2) c k1 by simp
  next
    case (Inr r)
    obtain o2 w2 where ca: "chat_all e ms w1 = (o2, w2)" by (cases "chat_all e ms w1")
    have "keeps e w1 w2" using Cons.IH [OF keeps_wf [OF k1] ca] .
    moreover have "w' = w2" using Cons.prems(2) c Inr ca by (auto split: sum.splits)
    ultimately show ?thesis using keeps_trans [OF k1] by simp
  qed
qed

lemma chat_all_thread:
  assumes "inj (randomUUID e)" and "wf_world e w" and "chat_all e msgs w = (out, w')"
    and "\<exists>t. threadId (state w) = Some t"
  shows "\<exists>t. threadId (state w') = Some t"
  using assms(2-4)
proof (induction msgs arbitrary: w out w')
  case Nil
  then show ?case by simp
next
  case (Cons m ms)
  obtain o1 w1 where c: "chat e m w = (o1, w1)" by (cases "chat e m w")
  note c1 = chat_keeps [OF assms(1) Cons.prems(1) c]
  show ?case
  proof (cases o1)
    case (Inl err)
    then show ?thesis using Cons.prems(2) c c1(2) by simp
  next
    case (Inr r)
    obtain o2 w2 where ca: "chat_all e ms w1 = (o2, w2)" by (cases "chat_all e ms w1")
    have "\<exists>t. threadId (state w2) = Some t" using Cons.IH [OF keeps_wf [OF c1(1)] ca c1(2)] .
    moreover have "w' = w2" using Cons.prems(2) c Inr ca by (auto split: sum.splits)
    ultimately show ?thesis by simp
  qed
qed

lemma fresh_thread_chats:
  assumes "inj (randomUUID e)" and "store_ok e w0"
    and "createThread e ttl w0 = (Inr tid, w1)"
    and "chat_all e msgs w1 = (out, w2)"
  shows "wf_world e w2" and "in_sync w2" and "\<exists>t. threadId (state w2) = Some t"
proof -
  have w1: "wf_world e w1" "in_sync w1"
    using createThread_inv [OF _ _ assms(3)] assms(2) by (simp_all add: store_ok_def)
  have k: "keeps e w1 w2" using chat_all_keeps [OF assms(1) w1(1) assms(4)] .
  show "wf_world e w2" using keeps_wf [OF k] .
  show "in_sync w2" using k w1(2) by (simp add: keeps_def)
  have "threadId (state w1) = Some tid" using createThread_Inr(2) [OF assms(3)] by simp
  then show "\<exists>t. threadId (state w2) = Some t"
    using chat_all_thread [OF assms(1) w1(1) assms(4)] by blast
qed

lemma chat_all_same_thread:
  assumes "inj (randomUUID e)"
  shows "wf_world e w \<Longrightarrow> chat_all e msgs w = (out, w') \<Longrightarrow> threadId (state w) = Some t \<Longrightarrow>
         t \<noteq> [] \<Longrightarrow> threadId (state w') = Some t"
proof (induction msgs arbitrary: w out w')
  case Nil
  then show ?case by simp
next
  case (Cons m ms)
  obtain o1 w1 where c: "chat e m w = (o1, w1)" by (cases "chat e m w")
  have k1: "keeps e w w1" using chat_keeps(1) [OF assms Cons.prems(1) c] .
  have tr: "truthy (threadId (state w))" using Cons.prems(3,4) by (simp add: truthy_def)
  have t1: "threadId (state w1) = Some t"
    using assms Cons.prems(1) c
    by (cases rule: chat_cases) (use tr Cons.prems(3) in simp_all)
  show ?case
  proof (cases o1)
    case (Inl err)
    then show ?thesis using Cons.prems(2) c t1 by simp
  next
    case (Inr r)
    obtain o2 w2 where ca: "chat_all e ms w1 = (o2, w2)" by (cases "chat_all e ms w1")
    have "threadId (state w2) = Some t" using Cons.IH [OF keeps_wf [OF k1] ca t1 Cons.prems(4)] .
    moreover have "w' = w2" using Cons.prems(2) c Inr ca by (auto split: sum.splits)
    ultimately show ?thesis by simp
  qed
qed

lemma fresh_thread_same:
  assumes "inj (randomUUID e)" and "store_ok e w0"
    and "createThread e ttl w0 = (Inr tid, w1)"
    and "chat_all e msgs w1 = (out, w2)"
    and "threadId (state w2) = Some t" and "tid \<noteq> []"
  shows "t = tid"
proof -
  have w1: "wf_world e w1"
    using createThread_inv(1) [OF _ _ assms(3)] assms(2) by (simp add: store_ok_def)
  have "threadId (state w1) = Some tid" using createThread_Inr(2) [OF assms(3)] by simp
  then have "threadId (state w2) = Some tid"
    using chat_all_same_thread [OF assms(1) w1 assms(4) _ assms(6)] by blast
  then show ?thesis using assms(5) by simp
qed

lemma row_of_fields:
  "row_id (row_of t m) = msg_id m" "thread_id (row_of t m) = t"
  "row_role (row_of t m) = msg_role m" "row_content (row_of t m) = content m"
  "tool_calls (row_of t m) = toolCalls m"
  "tool_call_id (row_of t m) = (if toolCallId m = Some [] then None else toolCallId m)"
  "created_at (row_of t m) = createdAt m"
  by (cases "toolCallId m"; simp add: row_of_def or_null_def truthy_def)+

lemma message_of_row_of:
  "message_of_row (row_of t m) =
     m\<lparr>toolCallId := (if toolCallId m = Some [] then None else toolCallId m)\<rparr>"
  by (cases "toolCallId m") (simp_all add: message_of_row_def row_of_def or_null_def truthy_def)

lemma list_all2_member:
  assumes "list_all2 P xs ys" and "x \<in> set xs"
  shows "\<exists>y\<in>set ys. P x y"
  using assms by (induction rule: list_all2_induct) auto

lemma tool_messages_ids:
  assumes "list_all2 (tool_message e) outs ms"
  shows "map toolCallId ms = map (\<lambda>tc. Some (call_id tc)) (map fst outs)"
    and "map msg_role ms = map (\<lambda>tc. Tool) (map fst outs)"
    and "length ms = length outs"
  using assms by (induction rule: list_all2_induct) (simp_all add: tool_message_def)

lemma loadThread_wf:
  assumes "wf_world e w"
  shows "wf_world e (snd (loadThread e tid w))"
proof (cases "filter (\<lambda>t. thr_id t = tid) (agent_threads w) = []")
  case True
  then show ?thesis using assms by (simp add: loadThread_def)
next
  case False
  then have "tid \<in> thr_id ` set (agent_threads w)" by (auto simp: filter_empty_conv)
  then show ?thesis
    using assms False
    by (simp add: loadThread_def setState_def wf_world_def ids_minted_def owned_def
        active_known_def Let_def)
qed

lemma wf_world_kept:
  assumes "inj (randomUUID e)" and "wf_world e w"
  shows "wf_world e (snd (createThread e ttl w))"
    and "wf_world e (snd (loadThread e tid w))"
    and "wf_world e (snd (chat e msg w))"
proof -
  have m: "ids_minted e w" "owned w" using assms(2) by (simp_all add: wf_world_def)
  obtain w' where c: "createThread e ttl w = (Inr (randomUUID e (tick w)), w')"
    using createThread_fresh [OF minted_fresh(1) [OF assms(1) m(1)]] by blast
  then show "wf_world e (snd (createThread e ttl w))" using createThread_inv(1) [OF m c] by simp
  show "wf_world e (snd (loadThread e tid w))" using loadThread_wf [OF assms(2)] .
  obtain out w2 where "chat e msg w = (out, w2)" by (cases "chat e msg w")
  then show "wf_world e (snd (chat e msg w))"
    using chat_keeps(1) [OF assms] by (simp add: keeps_def)
qed

lemma d1_mirror_ok:
  assumes "\<forall>k. d1_run e k = None"
  shows "\<exists>w'. d1_mirror e w = (Inr (), w')"
  using assms by (simp add: d1_mirror_def)

lemma chat_answers:
  assumes "inj (randomUUID e)" and "wf_world e w" and "llm_answers e"
  shows "\<exists>r t w'. chat e msg w = (Inr r, w') \<and> result_threadId r = Some t"
proof -
  obtain out w' where c: "chat e msg w = (out, w')" by (cases "chat e msg w")
  from assms(1,2) c show ?thesis
  proof (cases rule: chat_cases)
    case (first_failed t u req1 o1 err)
    then show ?thesis
      using assms(3) unfolding llm_answers_def
      by (metis sum.distinct(1) Inr_inject list.distinct(1))
  next
    case (plain t u req1 c1 cs1 f)
    then show ?thesis using c by simp
  next
    case (tool_round t u req1 c1 cs1 calls a ms fin outs req2 o2)
    obtain c2 cs2 where "o2 = Inr (c2 # cs2)"
      using tool_round(26) assms(3) unfolding llm_answers_def by metis
    then show ?thesis using tool_round(24) c by auto
  qed
qed

lemma build_messages_orphan:
  assumes "i < length h" and "msg_role (h ! i) = Tool" and "\<not> truthy (toolCallId (h ! i))"
  shows "build_messages p (h @ ys) ! Suc i = PlainParam Tool (content (h ! i))"
    and "length (build_messages p (h @ ys)) = Suc (length h + length ys)"
  using assms by (simp_all add: build_messages_def project_def nth_append)

section \<open>The examples, evaluated\<close>

lemmas agent_defs =
  chat_def ensure_thread_def truthy_def or_empty_def or_null_def createThread_def
  next_uuid_def next_now_def insert_thread_def setState_def connectToStitch_def
  append_message_def persistMessage_def insert_message_def row_of_def build_messages_def
  project_def getMcpTools_def server_ready_tools_def to_chat_tool_def complete_def
  create_completion_def first_choice_def after_first_def tool_branch_def tool_call_step_def
  try_tool_call_def invoke_tool_def executeMcpTool_def error_payload_def error_text_def
  store_final_def loadThread_def message_of_row_def onStart_def fresh_thread_def
  sample_stringify_def sample_parse_def quoted_def palette_call_def missing_call_def
  blank_call_def Let_def

lemmas env_defs =
  plain_env_def failing_env_def silent_env_def tools_env_def same_ms_env_def empty_id_env_def
  set_back_env_def

lemma replicate_uuid_inj: "inj (\<lambda>n. replicate (Suc n) (c :: char))"
proof (rule injI)
  fix x y assume "replicate (Suc x) c = replicate (Suc y) c"
  then have "length (replicate (Suc x) c) = length (replicate (Suc y) c)" by (rule arg_cong)
  then show "x = y" by simp
qed

lemma sample_uuids_inj:
  "inj (randomUUID plain_env)" "inj (randomUUID tools_env)" "inj (randomUUID failing_env)"
  "inj (randomUUID silent_env)" "inj (randomUUID same_ms_env)" "inj (randomUUID empty_id_env)"
  using replicate_uuid_inj [of "CHR ''u''"] by (simp_all only: env_defs env.simps)

lemma sample_clocks_mono: "mono (date_now tools_env)" "mono (date_now same_ms_env)"
  by (auto simp: mono_def env_defs)

lemma onStart_wf: "store_ok e (onStart p)" "wf_world e (onStart p)"
  by (simp_all add: store_ok_def wf_world_def ids_minted_def owned_def active_known_def
      onStart_def)

lemma sample_llm_answers: "llm_answers plain_env" "llm_answers tools_env" "llm_answers silent_env"
  by (auto simp: llm_answers_def env_defs split: param.splits)

lemma two_entries:
  assumes "map snd xs = [a, b]"
  shows "xs = (fst (hd xs), a) # tl xs" and "tl xs = [(fst (last xs), b)]"
    and "xs = [(fst (hd xs), a), (fst (last xs), b)]"
  using assms by (auto simp: map_eq_Cons_conv)

lemma one_entry:
  assumes "map snd xs = [a]"
  shows "xs = [(fst (hd xs), a)]"
  using assms by (auto simp: map_eq_Cons_conv)

lemma tools_turn_eval:
  "fst tools_turn = Inr \<lparr>response = ''Use indigo.'', result_threadId = Some ''u''\<rparr>"
  "tool_log (snd tools_turn) =
     [(palette_call, Inr (JStr ''indigo'')),
      (missing_call, Inl (Error ''Tool not found: get_grid''))]"
  "map snd (llm_log (snd tools_turn)) =
     [Inr [\<lparr>cm_content = None, cm_tool_calls = Some [palette_call, missing_call]\<rparr>],
      Inr [\<lparr>cm_content = Some ''Use indigo.'', cm_tool_calls = None\<rparr>]]"
  "map (tools \<circ> fst) (llm_log (snd tools_turn)) =
     [Some [\<lparr>ct_name = ''get_palette'', ct_description = [], ct_parameters = JObj []\<rparr>], None]"
  "map (\<lambda>m. (msg_role m, content m, toolCallId m)) (conversationHistory (state (snd tools_turn))) =
     [(User, ''Pick colours'', None), (Assistant, [], None),
      (Tool, quoted ''indigo'', Some ''call_1''),
      (Tool, ''{'' @ quoted ''error'' @ '':'' @ quoted ''Tool not found: get_grid'' @ ''}'', Some ''call_2''),
      (Assistant, ''Use indigo.'', None)]"
  by (simp_all add: tools_turn_def agent_defs env_defs)

lemma tools_turn_chat:
  "chat tools_env ''Pick colours'' (onStart ''You are a UX Architect'') =
     (Inr \<lparr>response = ''Use indigo.'', result_threadId = Some ''u''\<rparr>, snd tools_turn)"
  using tools_turn_eval(1) by (simp add: tools_turn_def prod_eq_iff)


lemma failing_turn_eval:
  "fst failing_turn = Inl (Error ''429 Too Many Requests'')"
  "map snd (llm_log (snd failing_turn)) = [Inl (Error ''429 Too Many Requests'')]"
  "map (\<lambda>r. (row_role r, row_content r)) (agent_messages (snd failing_turn)) =
     [(User, ''Design a login form'')]"
  by (simp_all add: failing_turn_def agent_defs env_defs)

lemma orphan_loaded_eval:
  "threadId (state orphan_loaded) = Some ''u''"
  "conversationHistory (state orphan_loaded) =
     [\<lparr>msg_id = ''uu'', msg_role = Tool, content = ''indigo'', toolCalls = None,
       toolCallId = None, createdAt = 2\<rparr>]"
  "tick orphan_loaded = 2"
  "agent_messages orphan_loaded =
     [\<lparr>row_id = ''uu'', thread_id = ''u'', row_role = Tool, row_content = ''indigo'',
       tool_calls = None, tool_call_id = None, created_at = 2\<rparr>]"
  "agent_threads orphan_loaded =
     [\<lparr>thr_id = ''u'', title = None, thr_created_at = 1, updated_at = 2\<rparr>]"
  "llm_log orphan_loaded = []"
  by (simp_all add: orphan_loaded_def orphan_world_def agent_defs env_defs)

lemma orphan_loaded_wf: "wf_world plain_env orphan_loaded"
proof -
  have "\<exists>k<2. ''uu'' = randomUUID plain_env k"
    by (rule exI [of _ 1]) (simp add: env_defs)
  moreover have "\<exists>k<2. ''u'' = randomUUID plain_env k"
    by (rule exI [of _ 0]) (simp add: env_defs)
  ultimately show ?thesis
    by (simp add: wf_world_def ids_minted_def owned_def active_known_def orphan_loaded_eval)
qed

lemma tools_chats_eval:
  "createThread tools_env None (onStart ''You are a UX Architect'') =
     (Inr ''u'', fresh_thread tools_env)"
  "fst tools_chats = Inr [\<lparr>response = ''Use indigo.'', result_threadId = Some ''u''\<rparr>]"
  "threadId (state (snd tools_chats)) = Some ''u''"
  "map (\<lambda>m. (msg_id m, msg_role m, content m, toolCalls m, toolCallId m, createdAt m))
     (conversationHistory (state (snd tools_chats))) =
     [(''uuuu'', User, ''Pick colours'', None, None, 4),
      (''uuuuuuuuu'', Assistant, [], Some [palette_call, missing_call], None, 9),
      (''uuuuuuuuuuuuu'', Tool, quoted ''indigo'', None, Some ''call_1'', 13),
      (''uuuuuuuuuuuuuuuuu'', Tool,
       ''{'' @ quoted ''error'' @ '':'' @ quoted ''Tool not found: get_grid'' @ ''}'',
       None, Some ''call_2'', 17),
      (''uuuuuuuuuuuuuuuuuuuuu'', Assistant, ''Use indigo.'', None, None, 21)]"
  "map (\<lambda>r. (row_id r, thread_id r, row_role r, row_content r, tool_calls r, tool_call_id r,
             created_at r))
     (messagesFor ''u'' (snd tools_chats)) =
     [(''uuuu'', ''u'', User, ''Pick colours'', None, None, 4),
      (''uuuuuuuuu'', ''u'', Assistant, [], Some [palette_call, missing_call], None, 9),
      (''uuuuuuuuuuuuu'', ''u'', Tool, quoted ''indigo'', None, Some ''call_1'', 13),
      (''uuuuuuuuuuuuuuuuu'', ''u'', Tool,
       ''{'' @ quoted ''error'' @ '':'' @ quoted ''Tool not found: get_grid'' @ ''}'',
       None, Some ''call_2'', 17),
      (''uuuuuuuuuuuuuuuuuuuuu'', ''u'', Assistant, ''Use indigo.'', None, None, 21)]"
  by (simp_all add: tools_chats_def messagesFor_def agent_defs env_defs)

lemma empty_id_chats_eval:
  "createThread empty_id_env None (onStart ''You are a UX Architect'') =
     (Inr ''u'', fresh_thread empty_id_env)"
  "fst empty_id_chats = Inr [\<lparr>response = ''Use a grid.'', result_threadId = Some ''u''\<rparr>]"
  "map (\<lambda>m. (msg_role m, content m, toolCallId m))
     (conversationHistory (state (snd empty_id_chats))) =
     [(User, ''Lay out the page'', None), (Assistant, [], None),
      (Tool, ''{'' @ quoted ''error'' @ '':'' @ quoted ''Tool not found: get_grid'' @ ''}'',
       Some []),
      (Assistant, ''Use a grid.'', None)]"
  "map (\<lambda>r. (row_role r, row_content r, tool_call_id r))
     (messagesFor ''u'' (snd empty_id_chats)) =
     [(User, ''Lay out the page'', None), (Assistant, [], None),
      (Tool, ''{'' @ quoted ''error'' @ '':'' @ quoted ''Tool not found: get_grid'' @ ''}'',
       None),
      (Assistant, ''Use a grid.'', None)]"
  "fst (loadThread empty_id_env ''u'' (snd empty_id_chats)) = True"
  "map (\<lambda>m. (msg_role m, content m, toolCallId m))
     (conversationHistory (state (snd (loadThread empty_id_env ''u'' (snd empty_id_chats))))) =
     [(User, ''Lay out the page'', None), (Assistant, [], None),
      (Tool, ''{'' @ quoted ''error'' @ '':'' @ quoted ''Tool not found: get_grid'' @ ''}'',
       None),
      (Assistant, ''Use a grid.'', None)]"
  by (simp_all add: empty_id_chats_def messagesFor_def agent_defs env_defs)

lemma same_ms_chats_eval:
  "createThread same_ms_env None (onStart ''You are a UX Architect'') =
     (Inr ''u'', fresh_thread same_ms_env)"
  "fst same_ms_chats = Inr [\<lparr>response = ''Use a grid.'', result_threadId = Some ''u''\<rparr>]"
  "threadId (state (snd same_ms_chats)) = Some ''u''"
  "map (\<lambda>m. (msg_role m, toolCallId m, createdAt m))
     (conversationHistory (state (snd same_ms_chats))) =
     [(User, None, 1000), (Assistant, None, 2000), (Tool, Some ''call_2'', 2000),
      (Assistant, None, 3000)]"
  by (simp_all add: same_ms_chats_def agent_defs env_defs)

lemma silent_turn_eval:
  "fst silent_turn = Inr \<lparr>response = [], result_threadId = Some ''u''\<rparr>"
  "map (\<lambda>r. (row_role r, row_content r)) (agent_messages (snd silent_turn)) =
     [(User, ''Design a login form''), (Assistant, [])]"
  by (simp_all add: silent_turn_def agent_defs env_defs)

section \<open>The claims\<close>

text \<open>
  Claim C1, as the code has it. On a thread made by \<open>createThread\<close>, after any sequence of
  \<open>chat\<close> calls that all return, the history and the rows of the active thread (the thread
  that was made, when its id is not empty) agree in number and in order, one row for one
  message: the row is the one \<open>persistMessage\<close> writes for the message, with the id of the
  thread and the message's \<open>id\<close>, \<open>role\<close>, \<open>content\<close>, \<open>toolCalls\<close> and \<open>createdAt\<close>. It has
  the message's \<open>toolCallId\<close> as well, with one exception: a \<open>toolCallId\<close> that is the empty
  string is stored as \<open>NULL\<close>. A prefix of such a sequence is such a sequence, so this holds
  after each call. The store in which the thread is created holds only ids that
  \<open>randomUUID\<close> gave out earlier, and \<open>randomUUID\<close> never repeats an id.
\<close>

theorem history_agrees_with_store:
  assumes "inj (randomUUID e)" and "store_ok e w0"
    and "createThread e ttl w0 = (Inr tid, w1)"
    and "chat_all e msgs w1 = (Inr rs, w2)"
  shows "\<exists>t. threadId (state w2) = Some t \<and> (tid \<noteq> [] \<longrightarrow> t = tid) \<and>
           messagesFor t w2 = map (row_of t) (conversationHistory (state w2)) \<and>
           length (messagesFor t w2) = length (conversationHistory (state w2)) \<and>
           list_all2
             (\<lambda>r m. row_id r = msg_id m \<and> thread_id r = t \<and> row_role r = msg_role m \<and>
                    row_content r = content m \<and> tool_calls r = toolCalls m \<and>
                    tool_call_id r = (if toolCallId m = Some [] then None else toolCallId m) \<and>
                    created_at r = createdAt m)
             (messagesFor t w2) (conversationHistory (state w2))"
proof -
  note f = fresh_thread_chats [OF assms]
  obtain t where t: "threadId (state w2) = Some t" using f(3) by blast
  have same: "tid \<noteq> [] \<longrightarrow> t = tid" using fresh_thread_same [OF assms t] by blast
  have rows: "messagesFor t w2 = map (row_of t) (conversationHistory (state w2))"
    using f(2) t by (simp add: in_sync_def)
  have "list_all2
      (\<lambda>r m. row_id r = msg_id m \<and> thread_id r = t \<and> row_role r = msg_role m \<and>
             row_content r = content m \<and> tool_calls r = toolCalls m \<and>
             tool_call_id r = (if toolCallId m = Some [] then None else toolCallId m) \<and>
             created_at r = createdAt m)
      (map (row_of t) (conversationHistory (state w2))) (conversationHistory (state w2))"
    by (simp add: list_all2_map1 list_all2_same row_of_fields)
  then show ?thesis using t same rows by simp
qed

theorem history_agrees_with_store_witness:
  "threadId (state (snd tools_chats)) = Some ''u'' \<and>
   map (\<lambda>m. (msg_id m, msg_role m, content m, toolCalls m, toolCallId m, createdAt m))
     (conversationHistory (state (snd tools_chats))) =
     [(''uuuu'', User, ''Pick colours'', None, None, 4),
      (''uuuuuuuuu'', Assistant, [], Some [palette_call, missing_call], None, 9),
      (''uuuuuuuuuuuuu'', Tool, quoted ''indigo'', None, Some ''call_1'', 13),
      (''uuuuuuuuuuuuuuuuu'', Tool,
       ''{'' @ quoted ''error'' @ '':'' @ quoted ''Tool not found: get_grid'' @ ''}'',
       None, Some ''call_2'', 17),
      (''uuuuuuuuuuuuuuuuuuuuu'', Assistant, ''Use indigo.'', None, None, 21)] \<and>
   map (\<lambda>r. (row_id r, thread_id r, row_role r, row_content r, tool_calls r, tool_call_id r,
             created_at r))
     (messagesFor ''u'' (snd tools_chats)) =
     [(''uuuu'', ''u'', User, ''Pick colours'', None, None, 4),
      (''uuuuuuuuu'', ''u'', Assistant, [], Some [palette_call, missing_call], None, 9),
      (''uuuuuuuuuuuuu'', ''u'', Tool, quoted ''indigo'', None, Some ''call_1'', 13),
      (''uuuuuuuuuuuuuuuuu'', ''u'', Tool,
       ''{'' @ quoted ''error'' @ '':'' @ quoted ''Tool not found: get_grid'' @ ''}'',
       None, Some ''call_2'', 17),
      (''uuuuuuuuuuuuuuuuuuuuu'', ''u'', Assistant, ''Use indigo.'', None, None, 21)] \<and>
   length (messagesFor ''u'' (snd tools_chats)) =
     length (conversationHistory (state (snd tools_chats))) \<and>
   list_all2
     (\<lambda>r m. row_id r = msg_id m \<and> thread_id r = ''u'' \<and> row_role r = msg_role m \<and>
            row_content r = content m \<and> tool_calls r = toolCalls m \<and>
            tool_call_id r = (if toolCallId m = Some [] then None else toolCallId m) \<and>
            created_at r = createdAt m)
     (messagesFor ''u'' (snd tools_chats)) (conversationHistory (state (snd tools_chats)))"
proof -
  have r: "chat_all tools_env [''Pick colours''] (fresh_thread tools_env) =
      (Inr [\<lparr>response = ''Use indigo.'', result_threadId = Some ''u''\<rparr>], snd tools_chats)"
    using tools_chats_eval(2) by (simp add: tools_chats_def prod_eq_iff)
  from history_agrees_with_store [OF sample_uuids_inj(2) onStart_wf(1) tools_chats_eval(1) r]
  obtain t where t: "threadId (state (snd tools_chats)) = Some t"
    and len: "length (messagesFor t (snd tools_chats)) =
      length (conversationHistory (state (snd tools_chats)))"
    and rows: "list_all2
      (\<lambda>r m. row_id r = msg_id m \<and> thread_id r = t \<and> row_role r = msg_role m \<and>
             row_content r = content m \<and> tool_calls r = toolCalls m \<and>
             tool_call_id r = (if toolCallId m = Some [] then None else toolCallId m) \<and>
             created_at r = createdAt m)
      (messagesFor t (snd tools_chats)) (conversationHistory (state (snd tools_chats)))"
    by blast
  have u: "t = ''u''" using t tools_chats_eval(3) by simp
  show ?thesis
    using len rows tools_chats_eval(3,4,5) unfolding u by (intro conjI)
qed

text \<open>
  The claim as stated has the history and the persisted log agree exactly. Here the model
  gives its tool call the empty string for an \<open>id\<close>. The turn returns; the \<open>tool\<close> message
  of the history has the \<open>toolCallId\<close> \<open>""\<close>, and its row has \<open>tool_call_id NULL\<close>.
\<close>

theorem history_and_store_differ_counterexample:
  "createThread empty_id_env None (onStart ''You are a UX Architect'') =
     (Inr ''u'', fresh_thread empty_id_env) \<and>
   fst empty_id_chats = Inr [\<lparr>response = ''Use a grid.'', result_threadId = Some ''u''\<rparr>] \<and>
   map (\<lambda>m. (msg_role m, toolCallId m)) (conversationHistory (state (snd empty_id_chats))) =
     [(User, None), (Assistant, None), (Tool, Some []), (Assistant, None)] \<and>
   map (\<lambda>r. (row_role r, tool_call_id r)) (messagesFor ''u'' (snd empty_id_chats)) =
     [(User, None), (Assistant, None), (Tool, None), (Assistant, None)]"
  by (simp add: empty_id_chats_def messagesFor_def agent_defs env_defs)

text \<open>
  Claim C2, as the code has it. A tool invocation that fails does not abort the turn. If
  the invocation of a call \<open>tc\<close> ended in a throw \<open>err\<close> during the turn (no provider offers
  the tool, the provider's call fails, or the arguments are not JSON), then \<open>chat\<close> returns
  a result, the history holds a \<open>tool\<close> message with \<open>toolCallId = tc.id\<close> whose content is
  \<open>JSON.stringify({error: ...})\<close> of that throw, the calls invoked during the turn are the
  calls of the first completion, all of them and in their order, and a second completion
  was requested. The error message is one of the \<open>tool\<close> messages this turn appends,
  between its assistant message and its final one. Its row is among the rows this turn
  adds to the store: it has the message's id and time, the role \<open>tool\<close>, the same content,
  and for \<open>tool_call_id\<close> the id of the call, or \<open>NULL\<close> when that id is the empty string.
  The model is taken to answer its requests.
\<close>

theorem tool_failure_is_contained:
  assumes "inj (randomUUID e)" and "wf_world e w" and "llm_answers e"
    and "chat e msg w = (out, w')"
    and "tool_log w' = tool_log w @ new"
    and "(tc, Inl err) \<in> set new"
  shows "\<exists>r t u a ms f m req1 c1 cs1 req2 o2 row.
           out = Inr r \<and> threadId (state w') = Some t \<and>
           conversationHistory (state w') = base_history w @ u # a # ms @ [f] \<and>
           agent_messages w' = agent_messages w @ map (row_of t) (u # a # ms @ [f]) \<and>
           m \<in> set ms \<and> msg_role m = Tool \<and> toolCallId m = Some (call_id tc) \<and>
           content m = error_payload e err \<and>
           row \<in> set (drop (length (agent_messages w)) (agent_messages w')) \<and>
           row_id row = msg_id m \<and> thread_id row = t \<and> row_role row = Tool \<and>
           row_content row = error_payload e err \<and> tool_calls row = None \<and>
           tool_call_id row = (if call_id tc = [] then None else Some (call_id tc)) \<and>
           created_at row = createdAt m \<and>
           llm_log w' = llm_log w @ [(req1, Inr (c1 # cs1)), (req2, o2)] \<and>
           cm_tool_calls c1 = Some (map fst new)"
  using assms(1,2,4)
proof (cases rule: chat_cases)
  case (first_failed t u req1 o1 err')
  then show ?thesis using assms(5,6) by simp
next
  case (plain t u req1 c1 cs1 f)
  then show ?thesis using assms(5,6) by simp
next
  case (tool_round t u req1 c1 cs1 calls a ms fin outs req2 o2)
  have new: "new = outs" using tool_round(12) assms(5) by simp
  then obtain m where m: "m \<in> set ms" "tool_message e (tc, Inl err) m"
    using list_all2_member [OF tool_round(19)] assms(6) by blast
  obtain c2 cs2 where "o2 = Inr (c2 # cs2)"
    using tool_round(26) assms(3) unfolding llm_answers_def by metis
  then obtain r f where r: "out = Inr r" "fin = [f]" using tool_round(24) by auto
  have mf: "msg_role m = Tool" "toolCallId m = Some (call_id tc)"
    "content m = error_payload e err" "toolCalls m = None"
    using m(2) by (simp_all add: tool_message_def tool_content_def)
  have calls: "cm_tool_calls c1 = Some (map fst new)" using tool_round(13,20) new by simp
  let ?row = "row_of t m"
  have rows: "agent_messages w' = agent_messages w @ map (row_of t) (u # a # ms @ [f])"
    using tool_round(5) r(2) by simp
  have inrow: "?row \<in> set (drop (length (agent_messages w)) (agent_messages w'))"
    using rows m(1) by simp
  have fields: "row_id ?row = msg_id m" "thread_id ?row = t" "row_role ?row = Tool"
    "row_content ?row = error_payload e err" "tool_calls ?row = None"
    "tool_call_id ?row = (if call_id tc = [] then None else Some (call_id tc))"
    "created_at ?row = createdAt m"
    using mf by (simp_all add: row_of_def or_null_def truthy_def)
  show ?thesis
    using r(1) tool_round(2,4,11) r(2) rows m(1) mf(1-3) inrow fields calls
    by - (rule exI [of _ r], rule exI [of _ t], rule exI [of _ u], rule exI [of _ a],
        rule exI [of _ ms], rule exI [of _ f], rule exI [of _ m], rule exI [of _ req1],
        rule exI [of _ c1], rule exI [of _ cs1], rule exI [of _ req2], rule exI [of _ o2],
        rule exI [of _ ?row], simp)
qed

theorem tool_failure_is_contained_witness:
  "\<exists>r t u a ms f m req1 c1 cs1 req2 o2 row.
     fst tools_turn = Inr r \<and> threadId (state (snd tools_turn)) = Some t \<and>
     conversationHistory (state (snd tools_turn)) = u # a # ms @ [f] \<and>
     agent_messages (snd tools_turn) = map (row_of t) (u # a # ms @ [f]) \<and>
     m \<in> set ms \<and> msg_role m = Tool \<and> toolCallId m = Some ''call_2'' \<and>
     content m =
       ''{'' @ quoted ''error'' @ '':'' @ quoted ''Tool not found: get_grid'' @ ''}'' \<and>
     row \<in> set (agent_messages (snd tools_turn)) \<and>
     row_id row = msg_id m \<and> thread_id row = t \<and> row_role row = Tool \<and>
     row_content row =
       ''{'' @ quoted ''error'' @ '':'' @ quoted ''Tool not found: get_grid'' @ ''}'' \<and>
     tool_calls row = None \<and> tool_call_id row = Some ''call_2'' \<and>
     created_at row = createdAt m \<and>
     llm_log (snd tools_turn) = [(req1, Inr (c1 # cs1)), (req2, o2)] \<and>
     cm_tool_calls c1 = Some [palette_call, missing_call]"
proof -
  have l: "tool_log (snd tools_turn) =
      tool_log (onStart ''You are a UX Architect'') @
      [(palette_call, Inr (JStr ''indigo'')),
       (missing_call, Inl (Error ''Tool not found: get_grid''))]"
    using tools_turn_eval(2) by (simp add: onStart_def)
  have m: "(missing_call, Inl (Error ''Tool not found: get_grid'')) \<in>
      set [(palette_call, Inr (JStr ''indigo'')),
           (missing_call, Inl (Error ''Tool not found: get_grid''))]"
    by simp
  show ?thesis
    using tool_failure_is_contained [OF sample_uuids_inj(2) onStart_wf(2) sample_llm_answers(2)
        tools_turn_chat l m]
    by (simp add: onStart_def base_history_def truthy_def missing_call_def error_payload_def
        error_text_def env_defs sample_stringify_def tools_turn_eval(1))
qed

text \<open>
  The claim as stated has the error message persisted with the id of the failing call.
  Here the call that fails (nobody offers its tool) has the empty string for an \<open>id\<close>: the
  turn returns, the error message of the history has that id, and the row that is written
  for it has \<open>tool_call_id NULL\<close>.
\<close>

theorem failing_call_id_not_persisted_counterexample:
  "fst empty_id_turn = Inr \<lparr>response = ''Use a grid.'', result_threadId = Some ''u''\<rparr> \<and>
   tool_log (snd empty_id_turn) = [(blank_call, Inl (Error ''Tool not found: get_grid''))] \<and>
   call_id blank_call = [] \<and>
   map (\<lambda>m. (msg_role m, content m, toolCallId m))
     (conversationHistory (state (snd empty_id_turn))) =
     [(User, ''Lay out the page'', None), (Assistant, [], None),
      (Tool, ''{'' @ quoted ''error'' @ '':'' @ quoted ''Tool not found: get_grid'' @ ''}'',
       Some []),
      (Assistant, ''Use a grid.'', None)] \<and>
   map (\<lambda>r. (row_role r, row_content r, tool_call_id r)) (agent_messages (snd empty_id_turn)) =
     [(User, ''Lay out the page'', None), (Assistant, [], None),
      (Tool, ''{'' @ quoted ''error'' @ '':'' @ quoted ''Tool not found: get_grid'' @ ''}'',
       None),
      (Assistant, ''Use a grid.'', None)]"
  by (simp add: empty_id_turn_def agent_defs env_defs)



text \<open>
  Claim C4. In a turn whose first completion carries tool calls, exactly one more
  completion is requested. Its request has neither \<open>tools\<close> nor \<open>tool_choice\<close>, and its
  messages are the projection of the history once the assistant message and the tool
  results are appended (at most the final assistant message follows them). When the turn returns, the response is the content of that second
  completion (\<open>content || ""\<close>).
\<close>

theorem one_follow_up_completion_without_tools:
  assumes "inj (randomUUID e)" and "wf_world e w"
    and "chat e msg w = (out, w')"
    and "llm_log w' = llm_log w @ (req1, Inr (c1 # cs1)) # rest"
    and "cm_tool_calls c1 = Some calls" and "calls \<noteq> []"
  shows "\<exists>req2 o2 u a ms fin.
           rest = [(req2, o2)] \<and> tools req2 = None \<and> tool_choice req2 = None \<and>
           messages req2 =
             build_messages (systemPrompt (state w)) (base_history w @ u # a # ms) \<and>
           conversationHistory (state w') = base_history w @ u # a # ms @ fin \<and>
           toolCalls a = Some calls \<and>
           map toolCallId ms = map (\<lambda>tc. Some (call_id tc)) calls \<and>
           (case out of
              Inl err \<Rightarrow> o2 = Inl err \<or> o2 = Inr []
            | Inr r \<Rightarrow> \<exists>c2 cs2. o2 = Inr (c2 # cs2) \<and> response r = or_empty (cm_content c2))"
  using assms(1-3)
proof (cases rule: chat_cases)
  case (first_failed t u req1' o1 err)
  then show ?thesis using assms(4) by auto
next
  case (plain t u req1' c1' cs1' f)
  then have "c1' = c1" using assms(4) by simp
  then show ?thesis using plain(13) assms(5,6) by auto
next
  case (tool_round t u req1' c1' cs1' calls' a ms fin outs req2 o2)
  have "c1' = c1" "rest = [(req2, o2)]" using tool_round(11) assms(4) by simp_all
  moreover have calls: "calls' = calls" using tool_round(13) assms(5) calculation(1) by simp
  moreover have "map toolCallId ms = map (\<lambda>tc. Some (call_id tc)) calls"
    using tool_messages_ids(1) [OF tool_round(19)] tool_round(20) calls by simp
  moreover have "case out of
              Inl err \<Rightarrow> o2 = Inl err \<or> o2 = Inr []
            | Inr r \<Rightarrow> \<exists>c2 cs2. o2 = Inr (c2 # cs2) \<and> response r = or_empty (cm_content c2)"
    using tool_round(24) by auto
  ultimately show ?thesis
    using tool_round(4,17,21,22,23)
    by - (rule exI [of _ req2], rule exI [of _ o2], rule exI [of _ u], rule exI [of _ a],
        rule exI [of _ ms], rule exI [of _ fin], simp)
qed

theorem one_follow_up_completion_without_tools_witness:
  "map (tools \<circ> fst) (llm_log (snd tools_turn)) =
     [Some [\<lparr>ct_name = ''get_palette'', ct_description = [], ct_parameters = JObj []\<rparr>], None] \<and>
   (\<exists>req2 o2 u a ms fin.
      tl (llm_log (snd tools_turn)) = [(req2, o2)] \<and>
      tools req2 = None \<and> tool_choice req2 = None \<and>
      messages req2 = build_messages ''You are a UX Architect'' (u # a # ms) \<and>
      conversationHistory (state (snd tools_turn)) = u # a # ms @ fin \<and>
      toolCalls a = Some [palette_call, missing_call] \<and>
      map toolCallId ms = [Some ''call_1'', Some ''call_2''] \<and>
      (\<exists>c2 cs2. o2 = Inr (c2 # cs2) \<and> ''Use indigo.'' = or_empty (cm_content c2)))"
proof -
  let ?w = "onStart ''You are a UX Architect''"
  let ?c1 = "\<lparr>cm_content = None, cm_tool_calls = Some [palette_call, missing_call]\<rparr>"
  have l: "llm_log (snd tools_turn) =
      llm_log ?w @ (fst (hd (llm_log (snd tools_turn))), Inr (?c1 # [])) #
        tl (llm_log (snd tools_turn))"
    using two_entries(1) [OF tools_turn_eval(3)] by (simp add: onStart_def)
  have calls: "cm_tool_calls ?c1 = Some [palette_call, missing_call]"
    "[palette_call, missing_call] \<noteq> []" by simp_all
  show ?thesis
    using one_follow_up_completion_without_tools
        [OF sample_uuids_inj(2) onStart_wf(2) tools_turn_chat l calls] tools_turn_eval(4)
    by (simp add: onStart_def base_history_def truthy_def palette_call_def missing_call_def)
qed

text \<open>
  Claim C5. When a completion request of the turn fails with \<open>err\<close>, \<open>chat\<close> throws \<open>err\<close>.
  The failed request is the last one made and nothing is appended after it: its messages
  are the projection of the history the turn ends with. That history is the one the turn
  started from followed by the user message and whatever the turn added before the failed
  request, and the store has the rows of exactly these messages: the user message is kept,
  and no assistant message answers the failed request (the last message added, if any
  follows the user message, is a \<open>tool\<close> message).
\<close>

theorem llm_failure_keeps_user_message:
  assumes "inj (randomUUID e)" and "wf_world e w"
    and "chat e msg w = (out, w')"
    and "llm_log w' = llm_log w @ new"
    and "(req, Inl err) \<in> set new"
  shows "out = Inl err \<and> last new = (req, Inl err) \<and>
         (\<exists>t u more.
            threadId (state w') = Some t \<and>
            conversationHistory (state w') = base_history w @ u # more \<and>
            agent_messages w' = agent_messages w @ map (row_of t) (u # more) \<and>
            msg_role u = User \<and> content u = msg \<and>
            (more = [] \<or> msg_role (last more) = Tool) \<and>
            messages req =
              build_messages (systemPrompt (state w')) (conversationHistory (state w')))"
  using assms(1-3)
proof (cases rule: chat_cases)
  case (first_failed t u req1 o1 err')
  have new: "new = [(req1, o1)]" using first_failed(11) assms(4) by simp
  then have "req = req1" "o1 = Inl err" using assms(5) by simp_all
  then have "out = Inl err" using first_failed(13,14) by auto
  moreover have "messages req =
      build_messages (systemPrompt (state w')) (conversationHistory (state w'))"
    using first_failed(3,4,10) \<open>req = req1\<close> by simp
  ultimately show ?thesis
    using new \<open>req = req1\<close> \<open>o1 = Inl err\<close> first_failed(2,4,5,6,7)
    by - (intro conjI, simp, simp, rule exI [of _ t], rule exI [of _ u],
        rule exI [of _ "[]"], simp)
next
  case (plain t u req1 c1 cs1 f)
  then show ?thesis using assms(4,5) by simp
next
  case (tool_round t u req1 c1 cs1 calls a ms fin outs req2 o2)
  have new: "new = [(req1, Inr (c1 # cs1)), (req2, o2)]" using tool_round(11) assms(4) by simp
  then have eq: "req = req2" "o2 = Inl err" using assms(5) by auto
  then have fin: "out = Inl err" "fin = []" using tool_round(24) by auto
  note ids = tool_messages_ids [OF tool_round(19)]
  have "ms \<noteq> []" using ids(3) tool_round(14,20) by auto
  then have "last (a # ms) = last ms" "last ms \<in> set ms" by simp_all
  moreover have "\<forall>m\<in>set ms. msg_role m = Tool"
    using tool_round(19) by (auto simp: list_all2_conv_all_nth in_set_conv_nth tool_message_def)
  ultimately have tl: "msg_role (last (a # ms)) = Tool" by simp
  have "messages req =
      build_messages (systemPrompt (state w')) (conversationHistory (state w'))"
    using tool_round(3,4,23) eq(1) fin(2) by simp
  then show ?thesis
    using new eq fin tl tool_round(2,4,5,6,7)
    by - (intro conjI, simp, simp, rule exI [of _ t], rule exI [of _ u],
        rule exI [of _ "a # ms"], simp)
qed

theorem llm_failure_keeps_user_message_witness:
  "map (\<lambda>r. (row_role r, row_content r)) (agent_messages (snd failing_turn)) =
     [(User, ''Design a login form'')] \<and>
   fst failing_turn = Inl (Error ''429 Too Many Requests'') \<and>
   last (llm_log (snd failing_turn)) =
     (fst (hd (llm_log (snd failing_turn))), Inl (Error ''429 Too Many Requests'')) \<and>
   (\<exists>t u more.
      threadId (state (snd failing_turn)) = Some t \<and>
      conversationHistory (state (snd failing_turn)) = u # more \<and>
      agent_messages (snd failing_turn) = map (row_of t) (u # more) \<and>
      msg_role u = User \<and> content u = ''Design a login form'' \<and>
      (more = [] \<or> msg_role (last more) = Tool) \<and>
      messages (fst (hd (llm_log (snd failing_turn)))) =
        build_messages (systemPrompt (state (snd failing_turn)))
          (conversationHistory (state (snd failing_turn))))"
proof -
  let ?w = "onStart ''You are a UX Architect''"
  let ?new = "llm_log (snd failing_turn)"
  have c: "chat failing_env ''Design a login form'' ?w = (fst failing_turn, snd failing_turn)"
    by (simp add: failing_turn_def)
  have l: "?new = llm_log ?w @ ?new" by (simp add: onStart_def)
  have m: "(fst (hd ?new), Inl (Error ''429 Too Many Requests'')) \<in> set ?new"
    using one_entry [OF failing_turn_eval(2)] by (metis list.set_intros(1))
  show ?thesis
    using llm_failure_keeps_user_message [OF sample_uuids_inj(3) onStart_wf(2) c l m]
      failing_turn_eval(3)
    by (simp add: onStart_def base_history_def truthy_def)
qed

text \<open>
  Claim C6. \<open>loadThread\<close> with an id that names no thread returns \<open>false\<close> and leaves the
  agent as it was: \<open>threadId\<close>, \<open>systemPrompt\<close> and \<open>conversationHistory\<close> keep their
  values, and so does the store.
\<close>

theorem loadThread_unknown_leaves_state:
  assumes "tid \<notin> thr_id ` set (agent_threads w)"
  shows "loadThread e tid w = (False, w)"
proof -
  have "filter (\<lambda>t. thr_id t = tid) (agent_threads w) = []"
    using assms by (auto simp: filter_empty_conv)
  then show ?thesis by (simp add: loadThread_def)
qed

theorem loadThread_unknown_leaves_state_witness:
  "loadThread plain_env ''unknown-id'' (fresh_thread plain_env) =
     (False, fresh_thread plain_env) \<and>
   threadId (state (fresh_thread plain_env)) = Some ''u''"
proof -
  have "''unknown-id'' \<notin> thr_id ` set (agent_threads (fresh_thread plain_env))"
    by (simp add: agent_defs env_defs)
  moreover have "threadId (state (fresh_thread plain_env)) = Some ''u''"
    by (simp add: agent_defs env_defs)
  ultimately show ?thesis
    using loadThread_unknown_leaves_state [of "''unknown-id''" "fresh_thread plain_env" plain_env]
    by simp
qed

text \<open>
  Claim C7, as the code has it. The projection raises no error. In a turn that starts from
  a history with a \<open>tool\<close> entry whose \<open>toolCallId\<close> is missing or empty, the completion
  requests are made all the same (at least one), and each of them, the first as the one
  after the tool calls, holds the system prompt, every entry of that history and the new
  messages: the entry is not dropped, it stands in its place as the plain entry
  \<open>{role: "tool", content}\<close>, without a \<open>tool_call_id\<close>.
\<close>

theorem orphan_tool_message_is_projected_plain:
  assumes "inj (randomUUID e)" and "wf_world e w" and "chat e msg w = (out, w')"
    and "i < length (base_history w)"
    and "msg_role (base_history w ! i) = Tool"
    and "\<not> truthy (toolCallId (base_history w ! i))"
  shows "\<exists>new. llm_log w' = llm_log w @ new \<and> new \<noteq> [] \<and>
           (\<forall>p\<in>set new.
              Suc (length (base_history w)) < length (messages (fst p)) \<and>
              messages (fst p) ! Suc i = PlainParam Tool (content (base_history w ! i)))"
  using assms(1-3)
proof (cases rule: chat_cases)
  case (first_failed t u req1 o1 err)
  show ?thesis
    using first_failed(10,11) build_messages_orphan [OF assms(4-6)]
    by - (rule exI [of _ "[(req1, o1)]"], simp)
next
  case (plain t u req1 c1 cs1 f)
  show ?thesis
    using plain(10,11) build_messages_orphan [OF assms(4-6)]
    by - (rule exI [of _ "[(req1, Inr (c1 # cs1))]"], simp)
next
  case (tool_round t u req1 c1 cs1 calls a ms fin outs req2 o2)
  show ?thesis
    using tool_round(10,11,23) build_messages_orphan [OF assms(4-6)]
    by - (rule exI [of _ "[(req1, Inr (c1 # cs1)), (req2, o2)]"], simp)
qed

theorem orphan_tool_message_is_projected_plain_witness:
  "conversationHistory (state orphan_loaded) =
     [\<lparr>msg_id = ''uu'', msg_role = Tool, content = ''indigo'', toolCalls = None,
       toolCallId = None, createdAt = 2\<rparr>] \<and>
   (\<exists>new. llm_log (snd orphan_turn) = new \<and> new \<noteq> [] \<and>
      (\<forall>p\<in>set new.
         2 < length (messages (fst p)) \<and> messages (fst p) ! 1 = PlainParam Tool ''indigo''))"
proof -
  have c: "chat plain_env ''Continue'' orphan_loaded = (fst orphan_turn, snd orphan_turn)"
    by (simp add: orphan_turn_def)
  have b: "base_history orphan_loaded = conversationHistory (state orphan_loaded)"
    by (simp add: base_history_def truthy_def orphan_loaded_eval(1))
  show ?thesis
    using orphan_tool_message_is_projected_plain
        [OF sample_uuids_inj(1) orphan_loaded_wf c, of 0]
    by (auto simp: b orphan_loaded_eval truthy_def)
qed

text \<open>
  The claim as stated expects a \<open>DataIntegrityError\<close> that ends the turn. Here the store
  holds a \<open>tool\<close> row with \<open>tool_call_id NULL\<close>; \<open>loadThread\<close> reads it into the history, and
  the next turn sends it to the model as a plain entry and returns.
\<close>

theorem orphan_tool_message_counterexample:
  "conversationHistory (state orphan_loaded) =
     [\<lparr>msg_id = ''uu'', msg_role = Tool, content = ''indigo'', toolCalls = None,
       toolCallId = None, createdAt = 2\<rparr>] \<and>
   fst orphan_turn = Inr \<lparr>response = ''Use a single column.'', result_threadId = Some ''u''\<rparr> \<and>
   map (messages \<circ> fst) (llm_log (snd orphan_turn)) =
     [[PlainParam System ''You are a UX Architect'', PlainParam Tool ''indigo'',
       PlainParam User ''Continue'']]"
  by (simp add: orphan_turn_def orphan_loaded_def orphan_world_def agent_defs env_defs
      eval_nat_numeral)

text \<open>
  Claim C8, as the code has it. After \<open>createThread\<close> and any sequence of \<open>chat\<close> calls that
  all return, \<open>loadThread\<close> of the thread finds it and gives back the messages of the
  history in the order in which they were appended, rows of equal \<open>created_at\<close> included,
  each with its \<open>id\<close>, \<open>role\<close>, \<open>content\<close>, \<open>toolCalls\<close> and \<open>createdAt\<close>. The \<open>toolCallId\<close> comes
  back as well, with one exception: one that is the empty string comes back absent. When
  no \<open>toolCallId\<close> is empty the reload changes nothing at all. The clock is taken never to
  run backwards, and \<open>randomUUID\<close> never to repeat an id.
\<close>

theorem reload_reconstructs_history:
  assumes "inj (randomUUID e)" and "mono (date_now e)" and "store_ok e w0"
    and "createThread e ttl w0 = (Inr tid, w1)"
    and "chat_all e msgs w1 = (Inr rs, w2)"
  shows "\<exists>t. threadId (state w2) = Some t \<and> (tid \<noteq> [] \<longrightarrow> t = tid) \<and>
           loadThread e t w2 =
             (True,
              w2\<lparr>state := (state w2)\<lparr>conversationHistory :=
                   map (\<lambda>m. m\<lparr>toolCallId :=
                               (if toolCallId m = Some [] then None else toolCallId m)\<rparr>)
                     (conversationHistory (state w2))\<rparr>\<rparr>) \<and>
           ((\<forall>m\<in>set (conversationHistory (state w2)). toolCallId m \<noteq> Some []) \<longrightarrow>
              loadThread e t w2 = (True, w2))"
proof -
  note f = fresh_thread_chats [OF assms(1,3,4,5)]
  obtain t where t: "threadId (state w2) = Some t" using f(3) by blast
  have same: "tid \<noteq> [] \<longrightarrow> t = tid" using fresh_thread_same [OF assms(1,3,4,5) t] by blast
  let ?h = "conversationHistory (state w2)"
  let ?rows = "filter (\<lambda>r. thread_id r = t) (agent_messages w2)"
  let ?reloaded =
    "\<lambda>m. m\<lparr>toolCallId := (if toolCallId m = Some [] then None else toolCallId m)\<rparr>"
  have rows: "?rows = map (row_of t) ?h"
    using f(2) t by (simp add: in_sync_def messagesFor_def)
  have known: "filter (\<lambda>r. thr_id r = t) (agent_threads w2) \<noteq> []"
    using f(1) t by (auto simp: wf_world_def active_known_def filter_empty_conv)
  have "conversationHistory (state w1) = []" using createThread_Inr(2) [OF assms(4)] by simp
  then have "time_ordered e w1" by (rule time_ordered_empty)
  then have "time_ordered e w2" using time_ordered_chat_all [OF assms(2) _ assms(5)] by blast
  then have "sorted (map created_at ?rows)"
    by (simp add: time_ordered_def rows comp_def row_of_def)
  then have stable: "sort_key created_at ?rows = ?rows" by (rule sort_key_id_if_sorted)
  have rl: "map message_of_row ?rows = map ?reloaded ?h"
    by (simp add: rows message_of_row_of)
  have l: "loadThread e t w2 =
      (True, w2\<lparr>state := (state w2)\<lparr>conversationHistory := map ?reloaded ?h\<rparr>\<rparr>)"
    using known t stable rl by (simp add: loadThread_def setState_def)
  have "map ?reloaded ?h = ?h" if "\<forall>m\<in>set ?h. toolCallId m \<noteq> Some []"
    using that by (simp add: map_idI)
  then show ?thesis using t same l by auto
qed

theorem reload_reconstructs_history_witness:
  "map (\<lambda>m. (msg_role m, toolCallId m, createdAt m))
     (conversationHistory (state (snd same_ms_chats))) =
     [(User, None, 1000), (Assistant, None, 2000), (Tool, Some ''call_2'', 2000),
      (Assistant, None, 3000)] \<and>
   loadThread same_ms_env ''u'' (snd same_ms_chats) = (True, snd same_ms_chats)"
proof -
  let ?h = "conversationHistory (state (snd same_ms_chats))"
  have r: "chat_all same_ms_env [''Lay out the page''] (fresh_thread same_ms_env) =
      (Inr [\<lparr>response = ''Use a grid.'', result_threadId = Some ''u''\<rparr>], snd same_ms_chats)"
    using same_ms_chats_eval(2) by (simp add: same_ms_chats_def prod_eq_iff)
  have "map toolCallId ?h =
      map (fst \<circ> snd) (map (\<lambda>m. (msg_role m, toolCallId m, createdAt m)) ?h)"
    by (simp add: comp_def)
  then have "map toolCallId ?h = [None, None, Some ''call_2'', None]"
    by (simp only: same_ms_chats_eval(4)) simp
  then have "list_all (\<lambda>x. x \<noteq> Some []) (map toolCallId ?h)" by simp
  then have n: "\<forall>m\<in>set ?h. toolCallId m \<noteq> Some []" by (simp add: list_all_iff)
  from reload_reconstructs_history [OF sample_uuids_inj(5) sample_clocks_mono(2) onStart_wf(1)
      same_ms_chats_eval(1) r]
  obtain t where t: "threadId (state (snd same_ms_chats)) = Some t"
    and l: "(\<forall>m\<in>set ?h. toolCallId m \<noteq> Some []) \<longrightarrow>
      loadThread same_ms_env t (snd same_ms_chats) = (True, snd same_ms_chats)"
    by blast
  have u: "t = ''u''" using t same_ms_chats_eval(3) by simp
  show ?thesis using l n same_ms_chats_eval(4) unfolding u by blast
qed

text \<open>
  The claim as stated has every \<open>toolCallId\<close> come back. Here the model gives its tool
  call the empty string for an \<open>id\<close>: the \<open>tool\<close> message that was appended has the
  \<open>toolCallId\<close> \<open>""\<close>, and after \<open>loadThread\<close> it has none.
\<close>

theorem reload_drops_empty_tool_call_id_counterexample:
  "createThread empty_id_env None (onStart ''You are a UX Architect'') =
     (Inr ''u'', fresh_thread empty_id_env) \<and>
   fst empty_id_chats = Inr [\<lparr>response = ''Use a grid.'', result_threadId = Some ''u''\<rparr>] \<and>
   map (\<lambda>m. (msg_role m, content m, toolCallId m))
     (conversationHistory (state (snd empty_id_chats))) =
     [(User, ''Lay out the page'', None), (Assistant, [], None),
      (Tool, ''{'' @ quoted ''error'' @ '':'' @ quoted ''Tool not found: get_grid'' @ ''}'',
       Some []),
      (Assistant, ''Use a grid.'', None)] \<and>
   fst (loadThread empty_id_env ''u'' (snd empty_id_chats)) = True \<and>
   map (\<lambda>m. (msg_role m, content m, toolCallId m))
     (conversationHistory (state (snd (loadThread empty_id_env ''u'' (snd empty_id_chats))))) =
     [(User, ''Lay out the page'', None), (Assistant, [], None),
      (Tool, ''{'' @ quoted ''error'' @ '':'' @ quoted ''Tool not found: get_grid'' @ ''}'',
       None),
      (Assistant, ''Use a grid.'', None)]"
  using empty_id_chats_eval(1,2,3,5,6) by simp

text \<open>
  Claim C9. The chat operation is exposed as the route \<open>POST /api/chat\<close>. A request whose
  message is missing or empty is answered with 400 and \<open>Message is required\<close>; one whose
  body is not JSON, or is \<open>null\<close>, with 500; in these cases the agent is not reached and
  nothing changes. A request with a non-empty message is answered with the
  \<open>{response, threadId}\<close> of the agent's turn, the \<open>threadId\<close> not null, when ids do not
  repeat, the model answers and D1 takes the three statements; whenever it is not answered
  so, the answer is 500.
\<close>

theorem api_chat_requires_message:
  shows "api_chat e NotJson w = (ErrorResponse 500 ''Failed to process chat message'', w) \<and>
         api_chat e JsonNull w = (ErrorResponse 500 ''Failed to process chat message'', w) \<and>
         (\<not> truthy (body_message body) \<longrightarrow>
            api_chat e (JsonValue body) w = (ErrorResponse 400 ''Message is required'', w)) \<and>
         (truthy (body_message body) \<and> inj (randomUUID e) \<and> wf_world e w \<and> llm_answers e \<and>
            (\<forall>k. d1_run e k = None) \<longrightarrow>
            (\<exists>r t w'. api_chat e (JsonValue body) w = (Ok200 r, w') \<and>
               result_threadId r = Some t)) \<and>
         (truthy (body_message body) \<longrightarrow>
            (case fst (api_chat e (JsonValue body) w) of
               Ok200 r \<Rightarrow>
                 fst (onRequest_chat e (or_empty (body_message body)) (body_threadId body) w) =
                   Inr r
             | ErrorResponse code m \<Rightarrow> code = 500))"
proof (intro conjI impI)
  show "api_chat e NotJson w = (ErrorResponse 500 ''Failed to process chat message'', w)"
    by (simp add: api_chat_def)
next
  show "api_chat e JsonNull w = (ErrorResponse 500 ''Failed to process chat message'', w)"
    by (simp add: api_chat_def)
next
  assume "\<not> truthy (body_message body)"
  then show "api_chat e (JsonValue body) w = (ErrorResponse 400 ''Message is required'', w)"
    by (simp add: api_chat_def)
next
  assume a: "truthy (body_message body) \<and> inj (randomUUID e) \<and> wf_world e w \<and> llm_answers e \<and>
            (\<forall>k. d1_run e k = None)"
  let ?w1 = "if truthy (body_threadId body)
             then snd (loadThread e (or_empty (body_threadId body)) w) else w"
  have "wf_world e ?w1" using a loadThread_wf by simp
  then obtain r t w2 where c:
    "chat e (or_empty (body_message body)) ?w1 = (Inr r, w2)" "result_threadId r = Some t"
    using chat_answers a by blast
  obtain w3 where "d1_mirror e w2 = (Inr (), w3)" using d1_mirror_ok a by blast
  then have "api_chat e (JsonValue body) w = (Ok200 r, w3)"
    using a c(1) by (simp add: api_chat_def onRequest_chat_def Let_def)
  then show "\<exists>r t w'. api_chat e (JsonValue body) w = (Ok200 r, w') \<and>
      result_threadId r = Some t"
    using c(2) by blast
next
  assume "truthy (body_message body)"
  then show "case fst (api_chat e (JsonValue body) w) of
               Ok200 r \<Rightarrow>
                 fst (onRequest_chat e (or_empty (body_message body)) (body_threadId body) w) =
                   Inr r
             | ErrorResponse code m \<Rightarrow> code = 500"
    by (auto simp: api_chat_def split: prod.splits sum.splits)
qed

theorem api_chat_requires_message_witness:
  "api_chat plain_env NotJson (onStart ''You are a UX Architect'') =
     (ErrorResponse 500 ''Failed to process chat message'', onStart ''You are a UX Architect'') \<and>
   api_chat plain_env (JsonValue \<lparr>body_message = None, body_threadId = None\<rparr>)
      (onStart ''You are a UX Architect'') =
     (ErrorResponse 400 ''Message is required'', onStart ''You are a UX Architect'') \<and>
   api_chat plain_env (JsonValue \<lparr>body_message = Some [], body_threadId = None\<rparr>)
      (onStart ''You are a UX Architect'') =
     (ErrorResponse 400 ''Message is required'', onStart ''You are a UX Architect'') \<and>
   (\<exists>r t w'. api_chat plain_env
        (JsonValue \<lparr>body_message = Some ''Design a login form'', body_threadId = None\<rparr>)
        (onStart ''You are a UX Architect'') = (Ok200 r, w') \<and> result_threadId r = Some t)"
proof -
  have d: "\<forall>k. d1_run plain_env k = None" by (simp add: env_defs)
  show ?thesis
    using api_chat_requires_message
        [of plain_env "onStart ''You are a UX Architect''"
          "\<lparr>body_message = None, body_threadId = None\<rparr>"]
      api_chat_requires_message
        [of plain_env "onStart ''You are a UX Architect''"
          "\<lparr>body_message = Some [], body_threadId = None\<rparr>"]
      api_chat_requires_message
        [of plain_env "onStart ''You are a UX Architect''"
          "\<lparr>body_message = Some ''Design a login form'', body_threadId = None\<rparr>"]
      sample_uuids_inj(1) onStart_wf(2) sample_llm_answers(1) d
    by (simp add: truthy_def)
qed

text \<open>
  Claim C10. The response of a turn that returns is \<open>content || ""\<close> of the last completion
  the turn requested, in the branch without tools as in the branch with them: the empty
  string when \<open>content\<close> is null or missing. The final assistant message carries the same
  string as its content, in the history and in the store.
\<close>

theorem missing_content_becomes_empty_string:
  assumes "inj (randomUUID e)" and "wf_world e w"
    and "chat e msg w = (Inr r, w')"
    and "llm_log w' = llm_log w @ new"
  shows "\<exists>req c cs.
           new \<noteq> [] \<and> last new = (req, Inr (c # cs)) \<and>
           response r = or_empty (cm_content c) \<and>
           (cm_content c = None \<longrightarrow> response r = []) \<and>
           conversationHistory (state w') \<noteq> [] \<and>
           msg_role (last (conversationHistory (state w'))) = Assistant \<and>
           content (last (conversationHistory (state w'))) = response r \<and>
           row_role (last (agent_messages w')) = Assistant \<and>
           row_content (last (agent_messages w')) = response r"
  using assms(1-3)
proof (cases rule: chat_cases)
  case (first_failed t u req1 o1 err)
  then show ?thesis by simp
next
  case (plain t u req1 c1 cs1 f)
  have "new = [(req1, Inr (c1 # cs1))]" using plain(11) assms(4) by simp
  then show ?thesis
    using plain(4,5,14,15,16)
    by - (rule exI [of _ req1], rule exI [of _ c1], rule exI [of _ cs1],
        simp add: row_of_def or_empty_def)
next
  case (tool_round t u req1 c1 cs1 calls a ms fin outs req2 o2)
  have new: "new = [(req1, Inr (c1 # cs1)), (req2, o2)]" using tool_round(11) assms(4) by simp
  obtain c2 cs2 f where f: "o2 = Inr (c2 # cs2)" "response r = or_empty (cm_content c2)"
    "fin = [f]" "msg_role f = Assistant" "content f = or_empty (cm_content c2)"
    using tool_round(24) by auto
  show ?thesis
    using new f tool_round(4,5)
    by - (rule exI [of _ req2], rule exI [of _ c2], rule exI [of _ cs2],
        simp add: row_of_def or_empty_def)
qed

theorem missing_content_becomes_empty_string_witness:
  "fst silent_turn = Inr \<lparr>response = [], result_threadId = Some ''u''\<rparr> \<and>
   (\<exists>req c cs.
      llm_log (snd silent_turn) \<noteq> [] \<and> last (llm_log (snd silent_turn)) = (req, Inr (c # cs)) \<and>
      [] = or_empty (cm_content c) \<and>
      conversationHistory (state (snd silent_turn)) \<noteq> [] \<and>
      msg_role (last (conversationHistory (state (snd silent_turn)))) = Assistant \<and>
      content (last (conversationHistory (state (snd silent_turn)))) = [] \<and>
      row_role (last (agent_messages (snd silent_turn))) = Assistant \<and>
      row_content (last (agent_messages (snd silent_turn))) = [])"
proof -
  let ?w = "onStart ''You are a UX Architect''"
  have c: "chat silent_env ''Design a login form'' ?w =
      (Inr \<lparr>response = [], result_threadId = Some ''u''\<rparr>, snd silent_turn)"
    using silent_turn_eval(1) by (simp add: silent_turn_def prod_eq_iff)
  have l: "llm_log (snd silent_turn) = llm_log ?w @ llm_log (snd silent_turn)"
    by (simp add: onStart_def)
  show ?thesis
    using missing_content_becomes_empty_string [OF sample_uuids_inj(4) onStart_wf(2) c l]
      silent_turn_eval(1)
    by auto
qed

section \<open>Beyond the claims\<close>

text \<open>
  The write of a tool result stands inside the \<open>try\<close>, after \<open>setState\<close>. When that write
  throws (here the id repeats one in the table), the \<open>catch\<close> takes it for a failure of the
  tool and appends an error message for the same call: the turn returns, the history holds
  both messages, the store only the second.
\<close>

theorem failed_write_of_tool_result_drifts:
  "fst colliding_turn = Inr \<lparr>response = ''Use indigo.'', result_threadId = Some ''u''\<rparr> \<and>
   tool_log (snd colliding_turn) = [(palette_call, Inr (JStr ''indigo''))] \<and>
   map (\<lambda>m. (msg_role m, content m)) (conversationHistory (state (snd colliding_turn))) =
     [(User, ''Pick colours''), (Assistant, []), (Tool, quoted ''indigo''),
      (Tool, ''{'' @ quoted ''error'' @ '':'' @
         quoted ''UNIQUE constraint failed: agent_messages.id'' @ ''}''),
      (Assistant, ''Use indigo.'')] \<and>
   map (\<lambda>r. (row_role r, row_content r)) (agent_messages (snd colliding_turn)) =
     [(User, ''Pick colours''), (Assistant, []),
      (Tool, ''{'' @ quoted ''error'' @ '':'' @
         quoted ''UNIQUE constraint failed: agent_messages.id'' @ ''}''),
      (Assistant, ''Use indigo.'')]"
  by (simp add: colliding_turn_def colliding_env_def one_tool_env_def agent_defs env_defs)

text \<open>
  The reload orders by \<open>created_at\<close>, so it keeps the order of the history only as far as
  the clock does. When the clock is set back between the user message and the answer, the
  reloaded history has the answer first.
\<close>

theorem backward_clock_reorders_reload:
  "fst set_back_chats =
     Inr [\<lparr>response = ''Use a single column.'', result_threadId = Some ''u''\<rparr>] \<and>
   map (\<lambda>m. (msg_role m, createdAt m)) (conversationHistory (state (snd set_back_chats))) =
     [(User, 2000), (Assistant, 1000)] \<and>
   map (\<lambda>m. (msg_role m, createdAt m))
     (conversationHistory (state (snd (loadThread set_back_env ''u'' (snd set_back_chats))))) =
     [(Assistant, 1000), (User, 2000)]"
  by (simp add: set_back_chats_def agent_defs env_defs)

end
